theory Spec2Isabelle
  imports Main
begin

section \<open>JavaScript strings and numbers\<close>

text \<open>
  A JavaScript string is modelled as a \<open>string\<close>, the list of its characters, so that
  \<open>length\<close> is \<open>.length\<close>, \<open>take\<close>/\<open>drop\<close> are \<open>.slice\<close> and \<open>@\<close> is concatenation; a
  \<open>char\<close> has eight bits, and the two literals of the sources that are not ASCII are
  given as their UTF-8 bytes. Numbers that the code only compares, multiplies by 1000
  or prints (message ids, timestamps, limits, status codes) are integers.
\<close>

text \<open>\<open>String(n)\<close> for an integer \<open>n\<close>: the decimal digits, with a minus sign when negative.\<close>

definition digitChar :: "nat \<Rightarrow> char" where
  "digitChar d = ''0123456789'' ! d"

fun digits :: "nat \<Rightarrow> string" where
  "digits n =
     (if n < 10 then [digitChar n]
      else digits (n div 10) @ [digitChar (n mod 10)])"

declare digits.simps [simp del]

definition String_of :: "int \<Rightarrow> string" where
  "String_of n = (if n < 0 then CHR ''-'' # digits (nat (- n)) else digits (nat n))"

text \<open>\<open>hay.includes(needle)\<close>, \<open>s.startsWith(p)\<close> and \<open>s.endsWith(p)\<close>.\<close>

definition startsWith :: "string \<Rightarrow> string \<Rightarrow> bool" where
  "startsWith s p = (take (length p) s = p)"

definition endsWith :: "string \<Rightarrow> string \<Rightarrow> bool" where
  "endsWith s p = (length p \<le> length s \<and> drop (length s - length p) s = p)"

fun includes' :: "string \<Rightarrow> string \<Rightarrow> bool" where
  "includes' [] needle = (needle = [])"
| "includes' (c # hay) needle = (startsWith (c # hay) needle \<or> includes' hay needle)"

text \<open>
  \<open>s.trim()\<close>, \<open>s.trimStart()\<close>, \<open>s.trimEnd()\<close> and the class \<open>\s\<close> of regular expressions:
  the white space and line terminators among the code units below 256.
\<close>

definition isWhiteSpace :: "char \<Rightarrow> bool" where
  "isWhiteSpace c = (c \<in> set [CHR 0x09, CHR 0x0A, CHR 0x0B, CHR 0x0C, CHR 0x0D, CHR 0x20, CHR 0xA0])"

definition trimStart :: "string \<Rightarrow> string" where
  "trimStart s = dropWhile isWhiteSpace s"

definition trimEnd :: "string \<Rightarrow> string" where
  "trimEnd s = rev (dropWhile isWhiteSpace (rev s))"

definition trim :: "string \<Rightarrow> string" where
  "trim s = trimEnd (trimStart s)"

section \<open>The message poller (polling.ts)\<close>

subsection \<open>Data\<close>

text \<open>
  \<open>WeChatChatHistoryItem\<close> (types.ts), with the fields the poller reads. Optional
  fields are options; \<open>type'\<close> is the field \<open>type\<close>.
\<close>

record WeChatChatHistoryItem =
  msg_id :: int
  is_chat_room :: bool
  is_atme :: bool
  is_recalled :: bool
  type' :: int
  content :: string
  display_full_content :: "string option"
  message_source :: "string option"
  sender_wxid :: string
  to_wxid :: string
  attachment_url :: "string option"
  created_at :: int
  sender_nickname :: "string option"

datatype chat_kind = Direct | Group

text \<open>\<open>WeChatInboundMessage\<close>; \<open>id'\<close> and \<open>from'\<close> are the fields \<open>id\<close> and \<open>from\<close>.\<close>

record WeChatInboundMessage =
  id' :: string
  msgId :: int
  from' :: string
  senderWxid :: string
  senderNickname :: "string option"
  toWxid :: string
  body :: string
  timestamp :: int
  chatType :: chat_kind
  chatId :: string
  isAtMe :: bool
  isRecalled :: bool
  messageType :: int
  attachmentUrl :: "string option"

record WeChatPollingConfig =
  pollingIntervalMs :: "int option"
  pollContactIds :: "string list option"
  pollAllContacts :: "bool option"
  maxPollContacts :: "int option"

text \<open>
  The outcome of one awaited backend call: it throws (transport failure, timeout,
  unparsable body, envelope code other than 200), or it returns an envelope whose
  \<open>data\<close> field may be absent.
\<close>

datatype 'a api_result = Threw | Returned "'a option"

record WeChatRobotInfo =
  wechat_id :: "string option"
  nickname :: "string option"

text \<open>
  \<open>WeChatPollingOptions\<close>. The connection fields only parameterise the HTTP calls,
  whose outcomes are inputs of the model. \<open>onMessage h m\<close> tells whether the
  callback, having received the messages \<open>h\<close> before, completes on \<open>m\<close> (\<open>True\<close>) or
  rejects (\<open>False\<close>).
\<close>

record WeChatPollingOptions =
  pollingConfig :: "WeChatPollingConfig option"
  onMessage :: "WeChatInboundMessage list \<Rightarrow> WeChatInboundMessage \<Rightarrow> bool"

text \<open>
  The poller's fields. \<open>seenMessageIds\<close> is a JavaScript \<open>Set\<close>: its keys in insertion
  order, each once. \<open>delivered\<close> and \<open>evictions\<close> are not fields of the class: they
  record the arguments of every \<open>onMessage\<close> call, oldest first, and how many times
  the seen-set was trimmed.
\<close>

record WeChatMessagePoller =
  seenMessageIds :: "string list"
  isRunning :: bool
  lastPollTimestamps :: "string \<rightharpoonup> int"
  robotWxid :: "string option"
  robotNickname :: "string option"
  delivered :: "WeChatInboundMessage list"
  evictions :: nat

definition newPoller :: WeChatMessagePoller where
  "newPoller = \<lparr>seenMessageIds = [], isRunning = False, lastPollTimestamps = Map.empty,
     robotWxid = None, robotNickname = None, delivered = [], evictions = 0\<rparr>"

subsection \<open>Contact resolution\<close>

definition DEFAULT_MAX_POLL_CONTACTS :: int where
  "DEFAULT_MAX_POLL_CONTACTS = 50"

text \<open>\<open>for (const c of data) { if (contactIds.length >= maxContacts) break; contactIds.push(c) }\<close>\<close>

fun pushUpTo :: "int \<Rightarrow> string list \<Rightarrow> string list \<Rightarrow> string list" where
  "pushUpTo maxContacts contactIds [] = contactIds"
| "pushUpTo maxContacts contactIds (c # cs) =
     (if int (length contactIds) \<ge> maxContacts then contactIds
      else pushUpTo maxContacts (contactIds @ [c]) cs)"

definition dataOrEmpty :: "'a list option \<Rightarrow> 'a list" where
  "dataOrEmpty d = (case d of None \<Rightarrow> [] | Some xs \<Rightarrow> xs)"

definition resolveAllContacts ::
  "WeChatPollingConfig \<Rightarrow> string list api_result \<Rightarrow> string list api_result \<Rightarrow> string list" where
  "resolveAllContacts config friendsResponse roomsResponse =
     (let maxContacts = (case maxPollContacts config of None \<Rightarrow> DEFAULT_MAX_POLL_CONTACTS | Some m \<Rightarrow> m)
      in case friendsResponse of
           Threw \<Rightarrow> []
         | Returned friends \<Rightarrow>
             (let contactIds = pushUpTo maxContacts [] (dataOrEmpty friends)
              in if int (length contactIds) < maxContacts
                 then (case roomsResponse of
                         Threw \<Rightarrow> contactIds
                       | Returned rooms \<Rightarrow> pushUpTo maxContacts contactIds (dataOrEmpty rooms))
                 else contactIds))"

definition resolveContactIds ::
  "WeChatPollingConfig option \<Rightarrow> string list api_result \<Rightarrow> string list api_result \<Rightarrow> string list" where
  "resolveContactIds config friendsResponse roomsResponse =
     (case config of
        None \<Rightarrow> []
      | Some cfg \<Rightarrow>
          if pollContactIds cfg \<noteq> None \<and> the (pollContactIds cfg) \<noteq> []
          then the (pollContactIds cfg)
          else if pollAllContacts cfg = Some True
          then resolveAllContacts cfg friendsResponse roomsResponse
          else [])"

subsection \<open>start and stop\<close>

definition stop :: "WeChatMessagePoller \<Rightarrow> WeChatMessagePoller" where
  "stop p = p\<lparr>isRunning := False\<rparr>"

text \<open>
  What \<open>start()\<close> meets: whether the abort signal is already aborted, the outcome of
  \<open>getRobotInfo\<close>, the clock (seconds) and the two directory calls.
\<close>

record start_env =
  abortedAtStart :: bool
  robotInfoResponse :: "WeChatRobotInfo api_result"
  now :: int
  startFriendsResponse :: "string list api_result"
  startRoomsResponse :: "string list api_result"

definition fetchRobotInfo :: "WeChatRobotInfo api_result \<Rightarrow> WeChatMessagePoller \<Rightarrow> WeChatMessagePoller" where
  "fetchRobotInfo r p =
     (case r of
        Threw \<Rightarrow> p
      | Returned None \<Rightarrow> p\<lparr>robotWxid := None, robotNickname := None\<rparr>
      | Returned (Some info) \<Rightarrow> p\<lparr>robotWxid := wechat_id info, robotNickname := nickname info\<rparr>)"

fun seedTimestamps :: "int \<Rightarrow> string list \<Rightarrow> (string \<rightharpoonup> int) \<Rightarrow> (string \<rightharpoonup> int)" where
  "seedTimestamps t [] m = m"
| "seedTimestamps t (contactId # cs) m = seedTimestamps t cs (m(contactId \<mapsto> t))"

definition start :: "WeChatPollingOptions \<Rightarrow> start_env \<Rightarrow> WeChatMessagePoller \<Rightarrow> WeChatMessagePoller" where
  "start opts env p =
     (if isRunning p then p
      else let p1 = p\<lparr>isRunning := True\<rparr>
           in if abortedAtStart env then stop p1
              else let p2 = fetchRobotInfo (robotInfoResponse env) p1;
                       contactIds = resolveContactIds (pollingConfig opts)
                                      (startFriendsResponse env) (startRoomsResponse env)
                   in p2\<lparr>lastPollTimestamps := seedTimestamps (now env) contactIds (lastPollTimestamps p2)\<rparr>)"

subsection \<open>One polling cycle\<close>

definition messageKey :: "string \<Rightarrow> WeChatChatHistoryItem \<Rightarrow> string" where
  "messageKey contactId item = contactId @ '':'' @ String_of (msg_id item)"

text \<open>The marker \<open>@\<close> followed by the two characters of "mentioned you", as UTF-8 bytes.\<close>

definition mentionedYou :: string where
  "mentionedYou = [CHR ''@'', CHR 0xE4, CHR 0xBA, CHR 0x86, CHR 0xE4, CHR 0xBD, CHR 0xA0]"

definition convertToInboundMessage ::
  "string option \<Rightarrow> WeChatChatHistoryItem \<Rightarrow> string \<Rightarrow> WeChatInboundMessage" where
  "convertToInboundMessage nick item contactId =
     (let isChatRoom = (is_chat_room item \<or> endsWith contactId ''@chatroom'');
          displayContent = (case display_full_content item of None \<Rightarrow> [] | Some d \<Rightarrow> d);
          atMe1 = (is_atme item \<or> includes' displayContent mentionedYou);
          atMe2 = (if \<not> atMe1 \<and> nick \<noteq> None \<and> the nick \<noteq> [] \<and> content item \<noteq> []
                   then includes' (content item) (CHR ''@'' # the nick) else atMe1)
      in \<lparr>id' = contactId @ '':'' @ String_of (msg_id item),
          msgId = msg_id item,
          from' = (if isChatRoom then contactId else sender_wxid item),
          senderWxid = sender_wxid item,
          senderNickname = sender_nickname item,
          toWxid = to_wxid item,
          body = (if content item \<noteq> [] then content item else displayContent),
          timestamp = created_at item * 1000,
          chatType = (if isChatRoom then Group else Direct),
          chatId = contactId,
          isAtMe = atMe2,
          isRecalled = is_recalled item,
          messageType = type' item,
          attachmentUrl = attachment_url item\<rparr>)"

text \<open>
  The \<open>filter\<close> callback, which also adds to the seen-set: the items kept, in page
  order, and the seen-set afterwards.
\<close>

fun filterNew ::
  "string \<Rightarrow> int \<Rightarrow> WeChatChatHistoryItem list \<Rightarrow> string list
     \<Rightarrow> WeChatChatHistoryItem list \<times> string list" where
  "filterNew contactId lastPollTimestamp [] seen = ([], seen)"
| "filterNew contactId lastPollTimestamp (item # items) seen =
     (if messageKey contactId item \<in> set seen
      then filterNew contactId lastPollTimestamp items seen
      else let seen1 = seen @ [messageKey contactId item]
           in if created_at item \<le> lastPollTimestamp
              then filterNew contactId lastPollTimestamp items seen1
              else (item # fst (filterNew contactId lastPollTimestamp items seen1),
                    snd (filterNew contactId lastPollTimestamp items seen1)))"

text \<open>The four \<open>continue\<close> tests of the delivery loop.\<close>

definition skipped :: "string option \<Rightarrow> WeChatChatHistoryItem \<Rightarrow> bool" where
  "skipped wxid item =
     (message_source item = Some ''robot''
      \<or> (wxid \<noteq> None \<and> the wxid \<noteq> [] \<and> sender_wxid item = the wxid)
      \<or> is_recalled item
      \<or> type' item \<noteq> 1)"

text \<open>
  The delivery loop over the reversed batch: the log of callback calls afterwards, and
  whether the loop ran to its end (\<open>False\<close>: the callback rejected, which leaves the
  loop and the rest of the \<open>try\<close> block).
\<close>

fun deliver ::
  "WeChatPollingOptions \<Rightarrow> string option \<Rightarrow> string option \<Rightarrow> string
     \<Rightarrow> WeChatChatHistoryItem list \<Rightarrow> WeChatInboundMessage list
     \<Rightarrow> WeChatInboundMessage list \<times> bool" where
  "deliver opts wxid nick contactId [] log = (log, True)"
| "deliver opts wxid nick contactId (item # items) log =
     (if skipped wxid item then deliver opts wxid nick contactId items log
      else let inboundMessage = convertToInboundMessage nick item contactId
           in if onMessage opts log inboundMessage
              then deliver opts wxid nick contactId items (log @ [inboundMessage])
              else (log @ [inboundMessage], False))"

text \<open>\<open>Math.max(...items.map((item) => item.created_at))\<close>, called on a non-empty page only.\<close>

fun maxTimestamp :: "WeChatChatHistoryItem list \<Rightarrow> int" where
  "maxTimestamp [] = 0"
| "maxTimestamp (item # items) = fold (\<lambda>i m. max m (created_at i)) items (created_at item)"

text \<open>The body of the \<open>for\<close> loop for one contact, given the outcome of \<open>getChatHistory\<close>.\<close>

definition pollContact ::
  "WeChatPollingOptions \<Rightarrow> WeChatMessagePoller \<Rightarrow> string
     \<Rightarrow> WeChatChatHistoryItem list api_result \<Rightarrow> WeChatMessagePoller" where
  "pollContact opts p contactId response =
     (case response of
        Threw \<Rightarrow> p
      | Returned d \<Rightarrow>
          (let items = dataOrEmpty d;
               lastPollTimestamp = (case lastPollTimestamps p contactId of None \<Rightarrow> 0 | Some t \<Rightarrow> t);
               new = filterNew contactId lastPollTimestamp items (seenMessageIds p);
               sent = deliver opts (robotWxid p) (robotNickname p) contactId (rev (fst new)) (delivered p);
               p1 = p\<lparr>seenMessageIds := snd new, delivered := fst sent\<rparr>
           in if snd sent \<and> items \<noteq> []
              then p1\<lparr>lastPollTimestamps := (lastPollTimestamps p1)(contactId \<mapsto> maxTimestamp items)\<rparr>
              else p1))"

text \<open>
  What one cycle meets: the two directory calls, the outcome of \<open>getChatHistory\<close> for
  the \<open>i\<close>-th contact of the cycle, and whether the loop head of iteration \<open>i\<close> finds
  the poller stopped or the signal aborted.
\<close>

record poll_env =
  friendsResponse :: "string list api_result"
  roomsResponse :: "string list api_result"
  historyResponse :: "nat \<Rightarrow> string \<Rightarrow> WeChatChatHistoryItem list api_result"
  stopped :: "nat \<Rightarrow> bool"

fun pollLoop ::
  "WeChatPollingOptions \<Rightarrow> poll_env \<Rightarrow> nat \<Rightarrow> string list \<Rightarrow> WeChatMessagePoller
     \<Rightarrow> WeChatMessagePoller" where
  "pollLoop opts env i [] p = p"
| "pollLoop opts env i (contactId # contactIds) p =
     (if stopped env i then p
      else pollLoop opts env (Suc i) contactIds
             (pollContact opts p contactId (historyResponse env i contactId)))"

text \<open>\<open>for (const id of idsArray.slice(0, 5000)) this.seenMessageIds.delete(id)\<close>\<close>

definition cleanSeen :: "WeChatMessagePoller \<Rightarrow> WeChatMessagePoller" where
  "cleanSeen p =
     (if length (seenMessageIds p) > 10000
      then p\<lparr>seenMessageIds := fold removeAll (take 5000 (seenMessageIds p)) (seenMessageIds p),
             evictions := Suc (evictions p)\<rparr>
      else p)"

definition poll :: "WeChatPollingOptions \<Rightarrow> poll_env \<Rightarrow> WeChatMessagePoller \<Rightarrow> WeChatMessagePoller" where
  "poll opts env p =
     (let contactIds = resolveContactIds (pollingConfig opts) (friendsResponse env) (roomsResponse env)
      in if contactIds = [] then p
         else cleanSeen (pollLoop opts env 0 contactIds p))"

text \<open>The cycles of a poller's lifetime, one environment per timer tick.\<close>

fun polls :: "WeChatPollingOptions \<Rightarrow> poll_env list \<Rightarrow> WeChatMessagePoller \<Rightarrow> WeChatMessagePoller" where
  "polls opts [] p = p"
| "polls opts (env # envs) p = polls opts envs (poll opts env p)"

section \<open>Token resolution (token.ts)\<close>

record WeChatAccountConfig =
  apiToken :: "string option"
  tokenFile :: "string option"

text \<open>\<open>WeChatConfig\<close> is \<open>WeChatAccountConfig\<close> extended with the account table.\<close>

record WeChatConfig = WeChatAccountConfig +
  accounts :: "(string \<rightharpoonup> WeChatAccountConfig) option"
  defaultAccount :: "string option"

datatype token_source = Env | Config | ConfigFile | NoSource

record WeChatTokenResolution =
  token :: string
  source :: token_source

text \<open>
  Modelled from the spec: \<open>DEFAULT_ACCOUNT_ID\<close>, the id of the designated default
  account, is a constant of the host's plugin SDK, which is not among the sources; its
  value is the one the README and the status collector use.
\<close>

definition DEFAULT_ACCOUNT_ID :: string where
  "DEFAULT_ACCOUNT_ID = ''default''"

text \<open>
  The block that \<open>resolveWeChatToken\<close> runs on the account's configuration and again on
  the base configuration: the trimmed \<open>apiToken\<close>, else the trimmed content of
  \<open>tokenFile\<close>. \<open>readFileSync path\<close> is \<open>None\<close> when the read throws.
\<close>

definition tokenOf ::
  "(string \<Rightarrow> string option) \<Rightarrow> 'a WeChatAccountConfig_scheme \<Rightarrow> WeChatTokenResolution option" where
  "tokenOf readFileSync cfg =
     (let tok = map_option trim (apiToken cfg)
      in if tok \<noteq> None \<and> the tok \<noteq> [] then Some \<lparr>token = the tok, source = Config\<rparr>
         else let file = map_option trim (tokenFile cfg)
              in if file \<noteq> None \<and> the file \<noteq> []
                 then (case readFileSync (the file) of
                         None \<Rightarrow> None
                       | Some text \<Rightarrow>
                           if trim text \<noteq> [] then Some \<lparr>token = trim text, source = ConfigFile\<rparr>
                           else None)
                 else None)"

definition accountEntry :: "WeChatConfig option \<Rightarrow> string \<Rightarrow> WeChatAccountConfig option" where
  "accountEntry config accountId =
     (case config of
        None \<Rightarrow> None
      | Some base \<Rightarrow> (case accounts base of None \<Rightarrow> None | Some table \<Rightarrow> table accountId))"

text \<open>
  \<open>resolveWeChatToken readFileSync envToken config accountId\<close>, where \<open>envToken\<close> is
  \<open>process.env.WECHAT_API_TOKEN\<close>.
\<close>

definition resolveWeChatToken ::
  "(string \<Rightarrow> string option) \<Rightarrow> string option \<Rightarrow> WeChatConfig option \<Rightarrow> string option
     \<Rightarrow> WeChatTokenResolution" where
  "resolveWeChatToken readFileSync envToken config accountId =
     (let resolvedAccountId = (case accountId of None \<Rightarrow> DEFAULT_ACCOUNT_ID | Some a \<Rightarrow> a);
          isDefaultAccount = (resolvedAccountId = DEFAULT_ACCOUNT_ID);
          accountConfig = (if resolvedAccountId \<noteq> DEFAULT_ACCOUNT_ID
                           then accountEntry config resolvedAccountId else None)
      in case (case accountConfig of None \<Rightarrow> None | Some a \<Rightarrow> tokenOf readFileSync a) of
           Some r \<Rightarrow> r
         | None \<Rightarrow>
             if isDefaultAccount
             then (case (case config of None \<Rightarrow> None | Some base \<Rightarrow> tokenOf readFileSync base) of
                     Some r \<Rightarrow> r
                   | None \<Rightarrow>
                       (let envTok = map_option trim envToken
                        in if envTok \<noteq> None \<and> the envTok \<noteq> []
                           then \<lparr>token = the envTok, source = Env\<rparr>
                           else \<lparr>token = [], source = NoSource\<rparr>))
             else \<lparr>token = [], source = NoSource\<rparr>)"

text \<open>
  The priority order in the specification's words: the account's own \<open>apiToken\<close>, then
  its \<open>tokenFile\<close>; then, for the default account only, the base \<open>apiToken\<close>, the base
  \<open>tokenFile\<close> and the environment variable; otherwise no token.
\<close>

definition resolveWeChatToken_spec ::
  "(string \<Rightarrow> string option) \<Rightarrow> string option \<Rightarrow> WeChatConfig option \<Rightarrow> string option
     \<Rightarrow> WeChatTokenResolution" where
  "resolveWeChatToken_spec readFileSync envToken config accountId =
     (let resolvedAccountId = (case accountId of None \<Rightarrow> DEFAULT_ACCOUNT_ID | Some a \<Rightarrow> a)
      in case (case accountEntry config resolvedAccountId of
                 None \<Rightarrow> None | Some a \<Rightarrow> tokenOf readFileSync a) of
           Some r \<Rightarrow> r
         | None \<Rightarrow>
             if resolvedAccountId = DEFAULT_ACCOUNT_ID
             then (case (case config of None \<Rightarrow> None | Some base \<Rightarrow> tokenOf readFileSync base) of
                     Some r \<Rightarrow> r
                   | None \<Rightarrow>
                       (let envTok = map_option trim envToken
                        in if envTok \<noteq> None \<and> the envTok \<noteq> []
                           then \<lparr>token = the envTok, source = Env\<rparr>
                           else \<lparr>token = [], source = NoSource\<rparr>))
             else \<lparr>token = [], source = NoSource\<rparr>)"

text \<open>A configuration without its table entry for one account id.\<close>

definition withoutAccount :: "string \<Rightarrow> WeChatConfig option \<Rightarrow> WeChatConfig option" where
  "withoutAccount accountId config =
     map_option (\<lambda>base. base\<lparr>accounts := map_option (\<lambda>table. table(accountId := None)) (accounts base)\<rparr>)
       config"

section \<open>The backend client (api.ts)\<close>

record 'a WeChatApiResponse =
  code :: int
  message :: "string option"
  data :: "'a option"

text \<open>
  What \<open>await fetcher(...)\<close> followed by \<open>await response.json()\<close> gives: the fetch
  rejects (no connection, or the abort of the timeout), or it resolves with a transport
  status and a body that does not parse (\<open>None\<close>) or parses as an envelope.
\<close>

record 'a http_response =
  status :: int
  json :: "'a WeChatApiResponse option"

datatype 'a fetch_outcome = FetchRejected | Fetched "'a http_response"

text \<open>The exceptions of a call; \<open>WeChatApiError\<close> carries message, code and response.\<close>

datatype api_error = TransportError | JsonError | WeChatApiError string int string

text \<open>
  \<open>callApi\<close> for an endpoint, given \<open>JSON.stringify\<close> on envelopes and the outcome of
  the fetch.
\<close>

definition callApi ::
  "('a WeChatApiResponse \<Rightarrow> string) \<Rightarrow> string \<Rightarrow> 'a fetch_outcome
     \<Rightarrow> api_error + 'a WeChatApiResponse" where
  "callApi stringify endpoint outcome =
     (case outcome of
        FetchRejected \<Rightarrow> Inl TransportError
      | Fetched response \<Rightarrow>
          (case json response of
             None \<Rightarrow> Inl JsonError
           | Some d \<Rightarrow>
               if code d \<noteq> 200
               then Inl (WeChatApiError
                      (case message d of None \<Rightarrow> ''API error: '' @ endpoint | Some m \<Rightarrow> m)
                      (code d) (stringify d))
               else Inr d))"

section \<open>The outbound chunker (channel.ts)\<close>

text \<open>\<open>s.lastIndexOf(c)\<close> for a single character: the last index, or -1.\<close>

fun lastIndexOf :: "string \<Rightarrow> char \<Rightarrow> int" where
  "lastIndexOf [] c = - 1"
| "lastIndexOf (x # xs) c =
     (if lastIndexOf xs c \<ge> 0 then lastIndexOf xs c + 1
      else if x = c then 0 else - 1)"

text \<open>
  The \<open>while (remaining.length > limit)\<close> loop with its two variables, and the final
  push. The chunker enters the loop with a positive limit only; the test \<open>0 < limit\<close>
  stands for that.
\<close>

function chunkLoop :: "nat \<Rightarrow> string \<Rightarrow> string list \<Rightarrow> string list" where
  "chunkLoop limit remaining chunks =
     (if 0 < limit \<and> length remaining > limit
      then (let window = take limit remaining;
                lastNewline = lastIndexOf window (CHR 0x0A);
                lastSpace = lastIndexOf window (CHR 0x20);
                breakIdx0 = (if lastNewline > 0 then lastNewline else lastSpace);
                breakIdx = (if breakIdx0 \<le> 0 then limit else nat breakIdx0);
                rawChunk = take breakIdx remaining;
                chunk = trimEnd rawChunk;
                chunks1 = (if chunk \<noteq> [] then chunks @ [chunk] else chunks);
                brokeOnSeparator = (breakIdx < length remaining \<and> isWhiteSpace (remaining ! breakIdx));
                nextStart = min (length remaining) (breakIdx + (if brokeOnSeparator then 1 else 0))
            in chunkLoop limit (trimStart (drop nextStart remaining)) chunks1)
      else (if remaining \<noteq> [] then chunks @ [remaining] else chunks))"
  by pat_completeness auto
termination
proof (relation "measure (\<lambda>(limit, remaining, chunks). length remaining)")
  show "wf (measure (\<lambda>(limit, remaining, chunks). length remaining))"
    by simp
next
  fix limit :: nat and remaining :: string and chunks :: "string list"
  fix window lastNewline lastSpace breakIdx0 and breakIdx :: nat
  fix rawChunk chunk chunks1 brokeOnSeparator and nextStart :: nat
  assume guard: "0 < limit \<and> limit < length remaining"
    and b: "breakIdx = (if breakIdx0 \<le> 0 then limit else nat breakIdx0)"
    and n: "nextStart = min (length remaining) (breakIdx + (if brokeOnSeparator then 1 else 0))"
  from guard b have "0 < breakIdx"
    by (simp split: if_splits)
  with guard n have "0 < nextStart"
    by (auto split: if_splits)
  moreover have "length (trimStart (drop nextStart remaining)) \<le> length remaining - nextStart"
    unfolding trimStart_def using length_dropWhile_le [of isWhiteSpace "drop nextStart remaining"]
    by simp
  ultimately have "length (trimStart (drop nextStart remaining)) < length remaining"
    using guard by linarith
  then show "((limit, trimStart (drop nextStart remaining), chunks1), (limit, remaining, chunks))
               \<in> measure (\<lambda>(limit, remaining, chunks). length remaining)"
    by simp
qed

declare chunkLoop.simps [simp del]

definition chunker :: "string \<Rightarrow> int \<Rightarrow> string list" where
  "chunker text limit =
     (if text = [] then []
      else if limit \<le> 0 \<or> int (length text) \<le> limit then [text]
      else chunkLoop (nat limit) text [])"

section \<open>The inbound dispatcher (inbound.ts)\<close>

text \<open>\<open>s.toLowerCase()\<close> on the letters A to Z.\<close>

definition lowerChar :: "char \<Rightarrow> char" where
  "lowerChar c =
     (if (65::nat) \<le> of_char c \<and> of_char c \<le> (90::nat) then char_of (of_char c + (32::nat)) else c)"

definition toLowerCase :: "string \<Rightarrow> string" where
  "toLowerCase s = map lowerChar s"

text \<open>\<open>entry.replace(/^(wechat|wx):/i, "").toLowerCase()\<close>\<close>

definition normalizeAllowEntry :: "string \<Rightarrow> string" where
  "normalizeAllowEntry entry =
     toLowerCase
       (if toLowerCase (take 7 entry) = ''wechat:'' then drop 7 entry
        else if toLowerCase (take 3 entry) = ''wx:'' then drop 3 entry
        else entry)"

datatype policy = Pairing | Allowlist | Open | Disabled

text \<open>
  \<open>WeChatInboundHandlerDeps\<close>, without the connection fields and the configuration
  object, which are only passed on to the host and to \<open>sendMessageWeChat\<close>.
\<close>

record WeChatInboundHandlerDeps =
  accountId :: string
  allowFrom :: "string list option"
  dmPolicy :: "policy option"
  groupPolicy :: "policy option"
  commandAllowFrom :: "string list option"
  safetyPrefix :: "string option"
  requireMention :: "bool option"

datatype trust_level = Trusted | Guest

record agent_route =
  sessionKey :: string
  routeAccountId :: string

record envelope_params =
  envelopeFrom :: string
  envelopeTimestamp :: int
  envelopeBody :: string
  envelopeChatType :: chat_kind
  envelopeSenderName :: string
  envelopeSenderId :: string

text \<open>The object given to \<open>finalizeInboundContext\<close>.\<close>

record inbound_context =
  Body :: string
  RawBody :: string
  CommandBody :: string
  From :: string
  To :: string
  SessionKey :: string
  AccountId :: string
  ChatType :: chat_kind
  ConversationLabel :: string
  GroupSubject :: "string option"
  SenderName :: string
  SenderId :: string
  Provider :: string
  Surface :: string
  MessageSid :: string
  Timestamp :: int
  WasMentioned :: bool
  CommandAuthorized :: bool
  OriginatingChannel :: string
  OriginatingTo :: string
  UserTrustLevel :: "trust_level option"
  AllowedCapabilities :: "string list option"

record reply_payload =
  payloadText :: "string option"
  payloadBody :: "string option"

text \<open>
  The host services the handler calls, as functions of their arguments:
  \<open>buildPairingReply senderId senderName\<close> (\<open>None\<close> for \<open>null\<close> or \<open>undefined\<close>),
  \<open>resolveAgentRoute kind id\<close>, \<open>formatInboundEnvelope\<close>, \<open>finalizeInboundContext\<close>
  (\<open>None\<close> for a falsy result) and \<open>dispatchReplyFromConfig\<close>: the payloads it hands
  to the \<open>deliver\<close> callback, and whether it completes (\<open>True\<close>) or throws.
\<close>

record PluginRuntime =
  buildPairingReply :: "string \<Rightarrow> string \<Rightarrow> string option"
  resolveAgentRoute :: "chat_kind \<Rightarrow> string \<Rightarrow> agent_route"
  formatInboundEnvelope :: "envelope_params \<Rightarrow> string"
  finalizeInboundContext :: "inbound_context \<Rightarrow> inbound_context option"
  dispatchReplyFromConfig :: "inbound_context \<Rightarrow> reply_payload list \<times> bool"

text \<open>
  What the handler does to the outside, in order: its log lines, its calls of host
  services and its calls of \<open>sendMessageWeChat\<close>.
\<close>

datatype event =
    LogGroupCheck bool bool
  | LogAccessCheck string chat_kind policy bool bool bool
  | LogAllowlistCheck string bool policy
  | BuildPairingReply string string
  | UpsertPairingRequest string string "string option"
  | SendMessageWeChat string string
  | RecordActivity string
  | ResolveAgentRoute chat_kind string
  | ResolveEnvelopeFormatOptions
  | FormatInboundEnvelope envelope_params
  | FinalizeInboundContext inbound_context
  | CreateReplyDispatcherWithTyping
  | DispatchReplyFromConfig inbound_context
  | LogDispatchError
  | MarkDispatchIdle

text \<open>The default safety prefix for guests, as UTF-8 bytes; it ends in two line feeds.\<close>

definition defaultSafetyPrefix :: string where
  "defaultSafetyPrefix =
     [CHR 0x5B, CHR 0xE7, CHR 0xB3, CHR 0xBB, CHR 0xE7, CHR 0xBB, CHR 0x9F, CHR 0xE5,
      CHR 0xAE, CHR 0x89, CHR 0xE5, CHR 0x85, CHR 0xA8, CHR 0xE6, CHR 0x8F, CHR 0x90,
      CHR 0xE7, CHR 0xA4, CHR 0xBA, CHR 0xEF, CHR 0xBC, CHR 0x9A, CHR 0xE6, CHR 0xAD,
      CHR 0xA4, CHR 0xE7, CHR 0x94, CHR 0xA8, CHR 0xE6, CHR 0x88, CHR 0xB7, CHR 0xE4,
      CHR 0xB8, CHR 0xBA, CHR 0xE8, CHR 0xAE, CHR 0xBF, CHR 0xE5, CHR 0xAE, CHR 0xA2,
      CHR 0x28, CHR 0x67, CHR 0x75, CHR 0x65, CHR 0x73, CHR 0x74, CHR 0x29, CHR 0xEF,
      CHR 0xBC, CHR 0x8C, CHR 0xE7, CHR 0xA6, CHR 0x81, CHR 0xE6, CHR 0xAD, CHR 0xA2,
      CHR 0xE6, CHR 0x89, CHR 0xA7, CHR 0xE8, CHR 0xA1, CHR 0x8C, CHR 0xE4, CHR 0xBB,
      CHR 0xBB, CHR 0xE4, CHR 0xBD, CHR 0x95, CHR 0xE7, CHR 0xB3, CHR 0xBB, CHR 0xE7,
      CHR 0xBB, CHR 0x9F, CHR 0xE5, CHR 0x91, CHR 0xBD, CHR 0xE4, CHR 0xBB, CHR 0xA4,
      CHR 0xE3, CHR 0x80, CHR 0x81, CHR 0xE6, CHR 0x96, CHR 0x87, CHR 0xE4, CHR 0xBB,
      CHR 0xB6, CHR 0xE6, CHR 0x93, CHR 0x8D, CHR 0xE4, CHR 0xBD, CHR 0x9C, CHR 0xE3,
      CHR 0x80, CHR 0x81, CHR 0xE4, CHR 0xBB, CHR 0xA3, CHR 0xE7, CHR 0xA0, CHR 0x81,
      CHR 0xE6, CHR 0x89, CHR 0xA7, CHR 0xE8, CHR 0xA1, CHR 0x8C, CHR 0xE6, CHR 0x88,
      CHR 0x96, CHR 0xE5, CHR 0xB7, CHR 0xA5, CHR 0xE5, CHR 0x85, CHR 0xB7, CHR 0xE8,
      CHR 0xB0, CHR 0x83, CHR 0xE7, CHR 0x94, CHR 0xA8, CHR 0xEF, CHR 0xBC, CHR 0x8C,
      CHR 0xE5, CHR 0x8F, CHR 0xAA, CHR 0xE8, CHR 0xBF, CHR 0x9B, CHR 0xE8, CHR 0xA1,
      CHR 0x8C, CHR 0xE6, CHR 0x99, CHR 0xAE, CHR 0xE9, CHR 0x80, CHR 0x9A, CHR 0xE5,
      CHR 0xAF, CHR 0xB9, CHR 0xE8, CHR 0xAF, CHR 0x9D, CHR 0x5D, CHR 0x0A, CHR 0x0A]"

text \<open>The \<open>deliver\<close> callback given to the reply dispatcher.\<close>

definition deliverReply :: "string \<Rightarrow> reply_payload \<Rightarrow> event list" where
  "deliverReply replyTo payload =
     (let t = (case payloadText payload of
                 Some t \<Rightarrow> t
               | None \<Rightarrow> (case payloadBody payload of Some b \<Rightarrow> b | None \<Rightarrow> []))
      in if trim t = [] then [] else [SendMessageWeChat replyTo t])"

text \<open>
  The values the handler computes from the message and its dependencies: the defaults
  of the destructuring, the test of the hard mention filter, \<open>effectivePolicy\<close>, and
  \<open>normalizedAllowFrom.includes(checkId)\<close>.
\<close>

definition allowList :: "WeChatInboundHandlerDeps \<Rightarrow> string list" where
  "allowList deps = (case allowFrom deps of None \<Rightarrow> [] | Some l \<Rightarrow> l)"

definition dmPolicyOf :: "WeChatInboundHandlerDeps \<Rightarrow> policy" where
  "dmPolicyOf deps = (case dmPolicy deps of None \<Rightarrow> Pairing | Some p \<Rightarrow> p)"

definition groupPolicyOf :: "WeChatInboundHandlerDeps \<Rightarrow> policy" where
  "groupPolicyOf deps = (case groupPolicy deps of None \<Rightarrow> Open | Some p \<Rightarrow> p)"

definition requireMentionOf :: "WeChatInboundHandlerDeps \<Rightarrow> bool" where
  "requireMentionOf deps = (case requireMention deps of None \<Rightarrow> True | Some b \<Rightarrow> b)"

definition mentionFiltered :: "WeChatInboundMessage \<Rightarrow> WeChatInboundHandlerDeps \<Rightarrow> bool" where
  "mentionFiltered msg deps = (chatType msg = Group \<and> requireMentionOf deps \<and> \<not> isAtMe msg)"

definition effectivePolicy :: "WeChatInboundMessage \<Rightarrow> WeChatInboundHandlerDeps \<Rightarrow> policy" where
  "effectivePolicy msg deps = (if chatType msg = Group then groupPolicyOf deps else dmPolicyOf deps)"

definition senderListed :: "WeChatInboundMessage \<Rightarrow> string list \<Rightarrow> bool" where
  "senderListed msg entries = (toLowerCase (senderWxid msg) \<in> set (map normalizeAllowEntry entries))"

text \<open>The two arguments of \<open>buildPairingReply\<close>, and the name given to \<open>upsertPairingRequest\<close>.\<close>

definition pairingSenderId :: "WeChatInboundMessage \<Rightarrow> string" where
  "pairingSenderId msg = (if chatType msg = Group then chatId msg else senderWxid msg)"

definition pairingSenderName :: "WeChatInboundMessage \<Rightarrow> string" where
  "pairingSenderName msg =
     (if chatType msg = Group then ''Group '' @ chatId msg
      else (case senderNickname msg of None \<Rightarrow> senderWxid msg | Some n \<Rightarrow> n))"

definition requestSenderName :: "WeChatInboundMessage \<Rightarrow> string option" where
  "requestSenderName msg =
     (if chatType msg = Group then Some (''Group '' @ chatId msg) else senderNickname msg)"

text \<open>
  The pairing block: build the reply, and when the host gave one, register the request
  and send the reply.
\<close>

definition pairingBlock :: "PluginRuntime \<Rightarrow> WeChatInboundMessage \<Rightarrow> string \<Rightarrow> event list" where
  "pairingBlock runtime msg account =
     (let pairingReply = buildPairingReply runtime (pairingSenderId msg) (pairingSenderName msg)
      in BuildPairingReply (pairingSenderId msg) (pairingSenderName msg)
         # (if pairingReply \<noteq> None \<and> the pairingReply \<noteq> []
            then [UpsertPairingRequest account (pairingSenderId msg) (requestSenderName msg),
                  SendMessageWeChat (pairingSenderId msg) (the pairingReply)]
            else []))"

text \<open>
  From the activity record to \<open>markDispatchIdle\<close>. \<open>messageBody\<close> is the body with
  the safety prefix, if any; \<open>authorized\<close>, \<open>trust\<close> and \<open>capabilities\<close> are the three
  fields in which the two versions of the handler differ.
\<close>

definition dispatchBlock ::
  "PluginRuntime \<Rightarrow> WeChatInboundMessage \<Rightarrow> string \<Rightarrow> string \<Rightarrow> bool
     \<Rightarrow> trust_level option \<Rightarrow> string list option \<Rightarrow> event list" where
  "dispatchBlock runtime msg account messageBody authorized trust capabilities =
     (let peerId = (if chatType msg = Group then chatId msg else senderWxid msg);
          route = resolveAgentRoute runtime (chatType msg) peerId;
          fromLabel = (case senderNickname msg of None \<Rightarrow> senderWxid msg | Some n \<Rightarrow> n);
          envelope = \<lparr>envelopeFrom = fromLabel, envelopeTimestamp = timestamp msg,
            envelopeBody = messageBody, envelopeChatType = chatType msg,
            envelopeSenderName = fromLabel, envelopeSenderId = senderWxid msg\<rparr>;
          replyTo = peerId;
          wechatTo = (if chatType msg = Group then ''group:'' @ chatId msg
                      else ''wechat:'' @ senderWxid msg);
          ctx = \<lparr>Body = formatInboundEnvelope runtime envelope, RawBody = body msg,
            CommandBody = body msg, From = wechatTo, To = wechatTo,
            SessionKey = sessionKey route, AccountId = routeAccountId route,
            ChatType = chatType msg, ConversationLabel = fromLabel,
            GroupSubject = (if chatType msg = Group then Some (chatId msg) else None),
            SenderName = fromLabel, SenderId = senderWxid msg, Provider = ''wechat'',
            Surface = ''wechat'', MessageSid = id' msg, Timestamp = timestamp msg,
            WasMentioned = isAtMe msg, CommandAuthorized = authorized,
            OriginatingChannel = ''wechat'', OriginatingTo = wechatTo,
            UserTrustLevel = trust, AllowedCapabilities = capabilities\<rparr>
      in [RecordActivity account, ResolveAgentRoute (chatType msg) peerId,
          ResolveEnvelopeFormatOptions, FormatInboundEnvelope envelope, FinalizeInboundContext ctx]
         @ (case finalizeInboundContext runtime ctx of
              None \<Rightarrow> []
            | Some ctxPayload \<Rightarrow>
                [CreateReplyDispatcherWithTyping, DispatchReplyFromConfig ctxPayload]
                @ concat (map (deliverReply replyTo) (fst (dispatchReplyFromConfig runtime ctxPayload)))
                @ (if snd (dispatchReplyFromConfig runtime ctxPayload) then [] else [LogDispatchError])
                @ [MarkDispatchIdle]))"

text \<open>
  \<open>handleWeChatInboundMessage\<close> with a policy per chat kind, trust tiers and the safety
  prefix.
\<close>

definition handleWeChatInboundMessage ::
  "PluginRuntime \<Rightarrow> WeChatInboundMessage \<Rightarrow> WeChatInboundHandlerDeps \<Rightarrow> event list" where
  "handleWeChatInboundMessage runtime msg deps =
     (let log0 = (if chatType msg = Group then [LogGroupCheck (requireMentionOf deps) (isAtMe msg)]
                  else [])
      in if mentionFiltered msg deps then log0
         else
           (let isAllowed = (effectivePolicy msg deps = Open \<or> senderListed msg (allowList deps));
                isTrusted = senderListed msg (allowList deps);
                isCommandAuthorized = senderListed msg
                  (case commandAllowFrom deps of None \<Rightarrow> allowList deps | Some l \<Rightarrow> l);
                log1 = log0 @ [LogAccessCheck (toLowerCase (senderWxid msg)) (chatType msg)
                                 (effectivePolicy msg deps) isAllowed isTrusted isCommandAuthorized]
            in if \<not> isAllowed \<and> effectivePolicy msg deps \<noteq> Pairing then log1
               else if effectivePolicy msg deps = Pairing \<and> \<not> senderListed msg (allowList deps)
               then log1 @ pairingBlock runtime msg (accountId deps)
               else log1 @ dispatchBlock runtime msg (accountId deps)
                      ((if isTrusted then []
                        else (case safetyPrefix deps of None \<Rightarrow> defaultSafetyPrefix | Some sp \<Rightarrow> sp))
                       @ body msg)
                      isCommandAuthorized
                      (Some (if isTrusted then Trusted else Guest))
                      (Some (if isTrusted then [''chat'', ''tools'', ''files'', ''commands'']
                             else [''chat'']))))"

text \<open>
  \<open>handleWeChatInboundMessage\<close> of src/inbound.ts: one policy for both chat kinds, no
  trust tier.
\<close>

definition handleWeChatInboundMessage_v1 ::
  "PluginRuntime \<Rightarrow> WeChatInboundMessage \<Rightarrow> WeChatInboundHandlerDeps \<Rightarrow> event list" where
  "handleWeChatInboundMessage_v1 runtime msg deps =
     (let log0 = (if chatType msg = Group then [LogGroupCheck (requireMentionOf deps) (isAtMe msg)]
                  else [])
      in if mentionFiltered msg deps then log0
         else
           (let isAllowed = (dmPolicyOf deps = Open \<or> senderListed msg (allowList deps));
                log1 = log0 @ [LogAllowlistCheck (toLowerCase (senderWxid msg)) isAllowed (dmPolicyOf deps)]
            in if \<not> isAllowed \<and> dmPolicyOf deps \<noteq> Pairing then log1
               else if dmPolicyOf deps = Pairing \<and> \<not> senderListed msg (allowList deps)
               then log1 @ pairingBlock runtime msg (accountId deps)
               else log1 @ dispatchBlock runtime msg (accountId deps) (body msg) True None None))"

section \<open>Example inputs\<close>

text \<open>A text message of a user, with its message id and creation time.\<close>

definition textItem :: "int \<Rightarrow> int \<Rightarrow> WeChatChatHistoryItem" where
  "textItem mid t = \<lparr>msg_id = mid, is_chat_room = False, is_atme = False, is_recalled = False,
     type' = 1, content = ''hello'', display_full_content = None, message_source = Some ''user'',
     sender_wxid = ''wxid_alice'', to_wxid = ''wxid_bot'', attachment_url = None,
     created_at = t, sender_nickname = Some ''Alice''\<rparr>"

text \<open>Options with an explicit contact list, and with "poll all contacts"; the callback completes.\<close>

definition pollOnly :: "string list \<Rightarrow> WeChatPollingOptions" where
  "pollOnly contactIds = \<lparr>pollingConfig = Some \<lparr>pollingIntervalMs = None,
     pollContactIds = Some contactIds, pollAllContacts = None, maxPollContacts = None\<rparr>,
     onMessage = (\<lambda>h m. True)\<rparr>"

definition pollEveryone :: "int \<Rightarrow> WeChatPollingOptions" where
  "pollEveryone maxContacts = \<lparr>pollingConfig = Some \<lparr>pollingIntervalMs = None,
     pollContactIds = None, pollAllContacts = Some True, maxPollContacts = Some maxContacts\<rparr>,
     onMessage = (\<lambda>h m. True)\<rparr>"

text \<open>A start at a given time, with the robot info call failing and the given friends.\<close>

definition startAt :: "int \<Rightarrow> string list \<Rightarrow> start_env" where
  "startAt t friends = \<lparr>abortedAtStart = False, robotInfoResponse = Threw, now = t,
     startFriendsResponse = Returned (Some friends), startRoomsResponse = Returned (Some [])\<rparr>"

text \<open>A cycle in which every history call returns the same page, and one with a page per contact.\<close>

definition pageOf :: "string list \<Rightarrow> WeChatChatHistoryItem list \<Rightarrow> poll_env" where
  "pageOf friends items = \<lparr>friendsResponse = Returned (Some friends), roomsResponse = Returned (Some []),
     historyResponse = (\<lambda>i contactId. Returned (Some items)), stopped = (\<lambda>i. False)\<rparr>"

definition fivePage :: "WeChatChatHistoryItem list" where
  "fivePage = [textItem 5 100, textItem 4 90, textItem 3 80, textItem 2 70, textItem 1 60]"

text \<open>A configuration whose only token is in the table entry of one account.\<close>

definition accountTokenOnly :: "string \<Rightarrow> string \<Rightarrow> WeChatConfig" where
  "accountTokenOnly account tok = \<lparr>apiToken = None, tokenFile = None,
     accounts = Some [account \<mapsto> \<lparr>apiToken = Some tok, tokenFile = None\<rparr>],
     defaultAccount = None\<rparr>"

text \<open>A message of Bob, direct or in a room; dependencies with one policy; a host.\<close>

definition messageFrom :: "chat_kind \<Rightarrow> bool \<Rightarrow> WeChatInboundMessage" where
  "messageFrom kind at = \<lparr>id' = ''room@chatroom:7'', msgId = 7,
     from' = (if kind = Group then ''room@chatroom'' else ''wxid_bob''),
     senderWxid = ''wxid_bob'', senderNickname = Some ''Bob'', toWxid = ''wxid_bot'',
     body = ''hello'', timestamp = 1000, chatType = kind, chatId = ''room@chatroom'',
     isAtMe = at, isRecalled = False, messageType = 1, attachmentUrl = None\<rparr>"

definition depsWith :: "policy \<Rightarrow> string list \<Rightarrow> WeChatInboundHandlerDeps" where
  "depsWith p entries = \<lparr>accountId = ''default'', allowFrom = Some entries, dmPolicy = Some p,
     groupPolicy = Some p, commandAllowFrom = None, safetyPrefix = None, requireMention = Some True\<rparr>"

definition hostReplying :: "string option \<Rightarrow> PluginRuntime" where
  "hostReplying reply = \<lparr>buildPairingReply = (\<lambda>senderId senderName. reply),
     resolveAgentRoute = (\<lambda>kind peer. \<lparr>sessionKey = peer, routeAccountId = ''default''\<rparr>),
     formatInboundEnvelope = envelopeBody,
     finalizeInboundContext = Some,
     dispatchReplyFromConfig = (\<lambda>ctx. ([], True))\<rparr>"

text \<open>
  Many contacts: friend number \<open>i\<close>, the first \<open>n\<close> friends, a message sent by the
  robot itself, a page of twenty of them (newest first), a cycle with a page per
  contact, and a cycle in which the directory calls fail.
\<close>

definition friendName :: "nat \<Rightarrow> string" where
  "friendName i = ''wxid_'' @ digits i"

definition robotItem :: "int \<Rightarrow> int \<Rightarrow> WeChatChatHistoryItem" where
  "robotItem mid t = \<lparr>msg_id = mid, is_chat_room = False, is_atme = False, is_recalled = False,
     type' = 1, content = ''hello'', display_full_content = None, message_source = Some ''robot'',
     sender_wxid = ''wxid_bot'', to_wxid = ''wxid_alice'', attachment_url = None,
     created_at = t, sender_nickname = Some ''Bot''\<rparr>"

definition robotPage :: "WeChatChatHistoryItem list" where
  "robotPage = map (\<lambda>j. robotItem (20 - int j) (520 - int j)) [0..<20]"

definition pagesOf :: "string list \<Rightarrow> (string \<Rightarrow> WeChatChatHistoryItem list) \<Rightarrow> poll_env" where
  "pagesOf friends page = \<lparr>friendsResponse = Returned (Some friends), roomsResponse = Returned (Some []),
     historyResponse = (\<lambda>i contactId. Returned (Some (page contactId))), stopped = (\<lambda>i. False)\<rparr>"

definition directoryDown :: poll_env where
  "directoryDown = \<lparr>friendsResponse = Threw, roomsResponse = Threw,
     historyResponse = (\<lambda>i contactId. Threw), stopped = (\<lambda>i. False)\<rparr>"

definition friendsUpTo :: "nat \<Rightarrow> string list" where
  "friendsUpTo n = map friendName [0..<n]"

text \<open>The pages of a first cycle: one new text message for friend 0, the robot's own messages for the others.\<close>

definition firstPages :: "string \<Rightarrow> WeChatChatHistoryItem list" where
  "firstPages contactId = (if contactId = friendName 0 then [textItem 1 2000] else robotPage)"


section \<open>Evaluating the models on literals\<close>

lemma digitChar_numeral [simp]:
  "digitChar (numeral k) = ''0123456789'' ! numeral k"
  "digitChar 0 = CHR ''0''" "digitChar (Suc 0) = CHR ''1''"
  by (simp_all add: digitChar_def)

lemma digits_numeral [simp]:
  "digits (numeral k) =
     (if (numeral k :: nat) < 10 then [digitChar (numeral k)]
      else digits (numeral k div 10) @ [digitChar (numeral k mod 10)])"
  "digits 0 = ''0''" "digits (Suc 0) = ''1''"
  by (simp_all add: digits.simps [of "numeral k"] digits.simps [of 0] digits.simps [of "Suc 0"])

lemmas example_defs =
  textItem_def pollOnly_def pollEveryone_def startAt_def pageOf_def fivePage_def newPoller_def

lemmas poller_defs =
  start_def stop_def fetchRobotInfo_def resolveContactIds_def resolveAllContacts_def
  DEFAULT_MAX_POLL_CONTACTS_def dataOrEmpty_def poll_def pollContact_def cleanSeen_def
  messageKey_def String_of_def skipped_def

section \<open>Properties of the poller\<close>

subsection \<open>The filter and the delivery loop\<close>

lemma id'_convert [simp]: "id' (convertToInboundMessage n item c) = messageKey c item"
  by (simp add: convertToInboundMessage_def messageKey_def Let_def)

lemma deliver_log:
  "\<exists>ys. fst (deliver opts w n c items lg) = lg @ map (\<lambda>i. convertToInboundMessage n i c) ys
        \<and> set ys \<subseteq> set items \<and> (distinct (map f items) \<longrightarrow> distinct (map f ys))"
proof (induction items arbitrary: lg)
  case Nil
  then show ?case by simp
next
  case (Cons item items)
  show ?case
  proof (cases "skipped w item")
    case True
    from Cons.IH [of lg] obtain ys where
      "fst (deliver opts w n c items lg) = lg @ map (\<lambda>i. convertToInboundMessage n i c) ys"
      "set ys \<subseteq> set items" "distinct (map f items) \<longrightarrow> distinct (map f ys)" by blast
    with True show ?thesis by (intro exI [of _ ys]) auto
  next
    case False
    let ?m = "convertToInboundMessage n item c"
    show ?thesis
    proof (cases "onMessage opts lg ?m")
      case True
      from Cons.IH [of "lg @ [?m]"] obtain ys where ys:
        "fst (deliver opts w n c items (lg @ [?m])) = (lg @ [?m]) @ map (\<lambda>i. convertToInboundMessage n i c) ys"
        "set ys \<subseteq> set items" "distinct (map f items) \<longrightarrow> distinct (map f ys)" by blast
      with True \<open>\<not> skipped w item\<close> show ?thesis
        by (intro exI [of _ "item # ys"]) (auto simp: Let_def)
    next
      case False
      with \<open>\<not> skipped w item\<close> show ?thesis
        by (intro exI [of _ "[item]"]) (auto simp: Let_def)
    qed
  qed
qed

lemma deliver_all:
  "\<forall>h m. onMessage opts h m \<Longrightarrow>
   deliver opts w n c items lg =
     (lg @ map (\<lambda>i. convertToInboundMessage n i c) (filter (\<lambda>i. \<not> skipped w i) items), True)"
  by (induction items arbitrary: lg) (auto simp: Let_def)

lemma filterNew_distinct_keys:
  "distinct (map (messageKey c) items) \<Longrightarrow>
   filterNew c t items seen =
     (filter (\<lambda>i. messageKey c i \<notin> set seen \<and> t < created_at i) items,
      seen @ filter (\<lambda>k. k \<notin> set seen) (map (messageKey c) items))"
proof (induction items arbitrary: seen)
  case Nil
  then show ?case by simp
next
  case (Cons item items)
  let ?k = "messageKey c item"
  from Cons.prems have d: "distinct (map (messageKey c) items)"
    by simp
  from Cons.prems have "?k \<notin> messageKey c ` set items"
    by simp
  then have k: "\<And>i. i \<in> set items \<Longrightarrow> messageKey c i \<noteq> ?k"
    by (metis imageI)
  have f1: "filter (\<lambda>i. messageKey c i \<notin> set (seen @ [?k]) \<and> t < created_at i) items
          = filter (\<lambda>i. messageKey c i \<notin> set seen \<and> t < created_at i) items"
    using k by (intro filter_cong) auto
  have f2: "filter (\<lambda>k. k \<notin> set (seen @ [?k])) (map (messageKey c) items)
          = filter (\<lambda>k. k \<notin> set seen) (map (messageKey c) items)"
    using k by (intro filter_cong) auto
  show ?case
    using Cons.IH [OF d, of seen] Cons.IH [OF d, of "seen @ [?k]"] f1 f2
    by (auto simp: Let_def)
qed

lemma filterNew_general:
  "fst (filterNew c t items seen) = ys \<Longrightarrow> snd (filterNew c t items seen) = seen' \<Longrightarrow>
   set seen \<subseteq> set seen' \<and> messageKey c ` set ys \<subseteq> set seen' - set seen
   \<and> distinct (map (messageKey c) ys) \<and> (distinct seen \<longrightarrow> distinct seen')"
proof (induction items arbitrary: seen ys seen')
  case Nil
  then show ?case by auto
next
  case (Cons item items)
  let ?k = "messageKey c item"
  show ?case
  proof (cases "?k \<in> set seen")
    case True
    with Cons.prems Cons.IH [of seen ys seen'] show ?thesis by simp
  next
    case False
    note new = this
    show ?thesis
    proof (cases "created_at item \<le> t")
      case True
      with new Cons.prems have
        "fst (filterNew c t items (seen @ [?k])) = ys" "snd (filterNew c t items (seen @ [?k])) = seen'"
        by (simp_all add: Let_def)
      from Cons.IH [OF this] new show ?thesis by auto
    next
      case False
      with new Cons.prems obtain ys' where ys': "ys = item # ys'"
        "fst (filterNew c t items (seen @ [?k])) = ys'" "snd (filterNew c t items (seen @ [?k])) = seen'"
        by (auto simp: Let_def)
      from Cons.IH [OF ys'(2,3)] new ys'(1) show ?thesis by auto
    qed
  qed
qed

subsection \<open>At-most-once delivery\<close>

lemma pollContact_evictions [simp]: "evictions (pollContact opts p c r) = evictions p"
  by (simp add: pollContact_def Let_def split: api_result.splits)

lemma pollLoop_evictions [simp]: "evictions (pollLoop opts env i cs p) = evictions p"
  by (induction cs arbitrary: i p) simp_all

lemma pollContact_once:
  assumes "distinct (map id' (delivered p))" "id' ` set (delivered p) \<subseteq> set (seenMessageIds p)"
  shows "distinct (map id' (delivered (pollContact opts p c r)))
       \<and> id' ` set (delivered (pollContact opts p c r)) \<subseteq> set (seenMessageIds (pollContact opts p c r))"
proof (cases r)
  case Threw
  with assms show ?thesis by (simp add: pollContact_def)
next
  case (Returned d)
  define t where "t = (case lastPollTimestamps p c of None \<Rightarrow> 0 | Some t \<Rightarrow> t)"
  define ys where "ys = fst (filterNew c t (dataOrEmpty d) (seenMessageIds p))"
  define seen' where "seen' = snd (filterNew c t (dataOrEmpty d) (seenMessageIds p))"
  from filterNew_general [OF ys_def [symmetric] seen'_def [symmetric]]
  have sub: "set (seenMessageIds p) \<subseteq> set seen'"
    and new: "messageKey c ` set ys \<subseteq> set seen' - set (seenMessageIds p)"
    and dist: "distinct (map (messageKey c) ys)" by auto
  from dist have "distinct (map (messageKey c) (rev ys))"
    by (simp add: rev_map [symmetric])
  with deliver_log [of opts "robotWxid p" "robotNickname p" c "rev ys" "delivered p" "messageKey c"]
  obtain zs where zs:
    "fst (deliver opts (robotWxid p) (robotNickname p) c (rev ys) (delivered p)) =
       delivered p @ map (\<lambda>i. convertToInboundMessage (robotNickname p) i c) zs"
    "set zs \<subseteq> set ys" "distinct (map (messageKey c) zs)" by auto
  have keys: "map id' (map (\<lambda>i. convertToInboundMessage (robotNickname p) i c) zs) = map (messageKey c) zs"
    by simp
  have d: "delivered (pollContact opts p c r) =
             delivered p @ map (\<lambda>i. convertToInboundMessage (robotNickname p) i c) zs"
    and s: "seenMessageIds (pollContact opts p c r) = seen'"
    using zs(1) by (simp_all add: Returned pollContact_def Let_def t_def ys_def seen'_def)
  have "distinct (map id' (delivered p) @ map (messageKey c) zs)"
    using assms zs(2,3) new by auto
  moreover have "id' ` set (delivered p) \<union> messageKey c ` set zs \<subseteq> set seen'"
    using assms(2) sub new zs(2) by blast
  ultimately show ?thesis
    unfolding d s by (simp add: keys image_Un image_image del: map_map)
qed

lemma pollLoop_once:
  "distinct (map id' (delivered p)) \<Longrightarrow> id' ` set (delivered p) \<subseteq> set (seenMessageIds p) \<Longrightarrow>
   distinct (map id' (delivered (pollLoop opts env i cs p)))
   \<and> id' ` set (delivered (pollLoop opts env i cs p)) \<subseteq> set (seenMessageIds (pollLoop opts env i cs p))"
proof (induction cs arbitrary: i p)
  case Nil
  then show ?case by simp
next
  case (Cons c cs)
  from pollContact_once [OF Cons.prems, of opts c "historyResponse env i c"]
  have "distinct (map id' (delivered (pollLoop opts env (Suc i) cs (pollContact opts p c (historyResponse env i c)))))
     \<and> id' ` set (delivered (pollLoop opts env (Suc i) cs (pollContact opts p c (historyResponse env i c))))
        \<subseteq> set (seenMessageIds (pollLoop opts env (Suc i) cs (pollContact opts p c (historyResponse env i c))))"
    by (intro Cons.IH) auto
  with Cons.prems show ?case by simp
qed

lemma cleanSeen_evictions: "evictions p \<le> evictions (cleanSeen p)"
  by (simp add: cleanSeen_def)

lemma cleanSeen_same: "evictions (cleanSeen p) = evictions p \<Longrightarrow> cleanSeen p = p"
  by (simp add: cleanSeen_def split: if_splits)

lemma poll_evictions: "evictions p \<le> evictions (poll opts env p)"
  using cleanSeen_evictions [of "pollLoop opts env 0
    (resolveContactIds (pollingConfig opts) (friendsResponse env) (roomsResponse env)) p"]
  by (simp add: poll_def Let_def)

lemma polls_evictions: "evictions p \<le> evictions (polls opts envs p)"
proof (induction envs arbitrary: p)
  case Nil
  then show ?case by simp
next
  case (Cons env envs)
  from Cons.IH [of "poll opts env p"] poll_evictions [of p opts env] show ?case by simp
qed

lemma poll_once:
  assumes "distinct (map id' (delivered p))" "id' ` set (delivered p) \<subseteq> set (seenMessageIds p)"
    and "evictions (poll opts env p) = evictions p"
  shows "distinct (map id' (delivered (poll opts env p)))
       \<and> id' ` set (delivered (poll opts env p)) \<subseteq> set (seenMessageIds (poll opts env p))"
proof -
  let ?cs = "resolveContactIds (pollingConfig opts) (friendsResponse env) (roomsResponse env)"
  show ?thesis
  proof (cases "?cs = []")
    case True
    with assms show ?thesis by (simp add: poll_def)
  next
    case False
    with assms(3) have "evictions (cleanSeen (pollLoop opts env 0 ?cs p)) = evictions (pollLoop opts env 0 ?cs p)"
      by (simp add: poll_def)
    then have "cleanSeen (pollLoop opts env 0 ?cs p) = pollLoop opts env 0 ?cs p"
      by (rule cleanSeen_same)
    with False have "poll opts env p = pollLoop opts env 0 ?cs p"
      by (simp add: poll_def)
    with pollLoop_once [OF assms(1,2)] show ?thesis by simp
  qed
qed

lemma polls_once:
  "distinct (map id' (delivered p)) \<Longrightarrow> id' ` set (delivered p) \<subseteq> set (seenMessageIds p) \<Longrightarrow>
   evictions (polls opts envs p) = evictions p \<Longrightarrow>
   distinct (map id' (delivered (polls opts envs p)))"
proof (induction envs arbitrary: p)
  case Nil
  then show ?case by simp
next
  case (Cons env envs)
  from Cons.prems(3) polls_evictions [of "poll opts env p" opts envs] poll_evictions [of p opts env]
  have e: "evictions (poll opts env p) = evictions p"
    "evictions (polls opts envs (poll opts env p)) = evictions (poll opts env p)" by simp_all
  from poll_once [OF Cons.prems(1,2) e(1)] Cons.IH [OF _ _ e(2)] show ?case by simp
qed

lemma start_fresh:
  "delivered (start opts senv newPoller) = [] \<and> evictions (start opts senv newPoller) = 0"
  by (simp add: start_def newPoller_def stop_def fetchRobotInfo_def Let_def
      split: api_result.splits option.splits)



subsection \<open>The cursor\<close>

text \<open>
  C2 (as stated, refuted): the stored cursor of a contact never decreases, also not
  below the value seeded at \<open>start()\<close>. A poller started at time 1000 with contact
  \<open>a\<close> seeds the cursor 1000; the first page holds one older message, created at 500,
  and the cycle stores 500.
\<close>

theorem cursor_falls_below_seed:
  "lastPollTimestamps (start (pollOnly [''a'']) (startAt 1000 []) newPoller) ''a'' = Some 1000
   \<and> lastPollTimestamps (poll (pollOnly [''a'']) (pageOf [] [textItem 7 500])
        (start (pollOnly [''a'']) (startAt 1000 []) newPoller)) ''a'' = Some 500"
  by (simp add: example_defs poller_defs Let_def)

lemma pollContact_cursor_other:
  "c' \<noteq> c \<Longrightarrow> lastPollTimestamps (pollContact opts p c r) c' = lastPollTimestamps p c'"
  by (simp add: pollContact_def Let_def split: api_result.splits)

lemma pollContact_cursor_same:
  "lastPollTimestamps (pollContact opts p c r) c = lastPollTimestamps p c
   \<or> (\<exists>items. r = Returned (Some items) \<and> items \<noteq> []
         \<and> lastPollTimestamps (pollContact opts p c r) c = Some (maxTimestamp items))"
  by (cases r) (auto simp: pollContact_def Let_def dataOrEmpty_def split: option.splits)

lemma pollLoop_cursor:
  assumes "\<forall>i items. historyResponse env i c = Returned (Some items) \<and> items \<noteq> []
             \<longrightarrow> t \<le> maxTimestamp items"
    and "\<exists>t'. lastPollTimestamps p c = Some t' \<and> t \<le> t'"
  shows "\<exists>t'. lastPollTimestamps (pollLoop opts env i cs p) c = Some t' \<and> t \<le> t'"
  using assms(2)
proof (induction cs arbitrary: i p)
  case Nil
  then show ?case by simp
next
  case (Cons c' cs)
  have "\<exists>t'. lastPollTimestamps (pollContact opts p c' (historyResponse env i c')) c = Some t' \<and> t \<le> t'"
  proof (cases "c' = c")
    case True
    with pollContact_cursor_same [of opts p c "historyResponse env i c"] Cons.prems assms(1)
    show ?thesis by auto
  next
    case False
    with Cons.prems show ?thesis by (simp add: pollContact_cursor_other)
  qed
  from Cons.IH [OF this] Cons.prems show ?case by simp
qed

lemma lastPollTimestamps_cleanSeen [simp]:
  "lastPollTimestamps (cleanSeen p) = lastPollTimestamps p"
  by (simp add: cleanSeen_def)

text \<open>
  C2 (amended): over a polling cycle the stored cursor of a contact does not decrease
  when every non-empty page fetched for that contact in the cycle has a greatest
  creation time that is at least the cursor stored when the cycle began. (The poller
  itself never compares: after a non-empty page it stores the greatest creation time
  of the page.)
\<close>

theorem cursor_nondecreasing_when_pages_advance:
  assumes "lastPollTimestamps p contactId = Some t"
    and "\<forall>i items. historyResponse env i contactId = Returned (Some items) \<and> items \<noteq> []
           \<longrightarrow> t \<le> maxTimestamp items"
  shows "\<exists>t'. lastPollTimestamps (poll opts env p) contactId = Some t' \<and> t \<le> t'"
  using pollLoop_cursor [OF assms(2), of p opts 0] assms(1)
  by (simp add: poll_def Let_def)

theorem cursor_nondecreasing_witness:
  "\<exists>t'. lastPollTimestamps (poll (pollOnly [''a'']) (pageOf [] [textItem 7 1500])
           (start (pollOnly [''a'']) (startAt 1000 []) newPoller)) ''a'' = Some t' \<and> 1000 \<le> t'"
proof -
  have "lastPollTimestamps (start (pollOnly [''a'']) (startAt 1000 []) newPoller) ''a'' = Some 1000"
    by (simp add: example_defs poller_defs Let_def)
  moreover have "\<forall>i items. historyResponse (pageOf [] [textItem 7 1500]) i ''a'' = Returned (Some items)
      \<and> items \<noteq> [] \<longrightarrow> 1000 \<le> maxTimestamp items"
    by (auto simp: pageOf_def textItem_def)
  ultimately show ?thesis
    by (rule cursor_nondecreasing_when_pages_advance)
qed

subsection \<open>One page\<close>

lemma list5:
  assumes "map f xs = [a, b, c, d, e]"
  obtains x1 x2 x3 x4 x5 where "xs = [x1, x2, x3, x4, x5]"
    "f x1 = a" "f x2 = b" "f x3 = c" "f x4 = d" "f x5 = e"
  using assms by (auto simp: map_eq_Cons_conv)

text \<open>
  C3: a page of five items not yet seen (distinct keys, none in the seen-set), none of
  them skipped by the delivery loop (text, not from the robot, not recalled), created
  at 100, 90, 80, 70, 60 in page order, with the cursor 80 stored for the contact and
  a callback that completes: the cycle hands to the callback exactly the item created
  at 90 and then the item created at 100.
\<close>

theorem page_100_to_60_with_cursor_80:
  assumes ts: "map created_at items = [100, 90, 80, 70, 60]"
    and plain: "\<forall>item \<in> set items. \<not> skipped (robotWxid p) item"
    and fresh: "distinct (map (messageKey contactId) items)"
      "\<forall>item \<in> set items. messageKey contactId item \<notin> set (seenMessageIds p)"
    and cursor: "lastPollTimestamps p contactId = Some 80"
    and cb: "\<forall>h m. onMessage opts h m"
  shows "delivered (pollContact opts p contactId (Returned (Some items))) =
           delivered p @ [convertToInboundMessage (robotNickname p) (items ! 1) contactId,
                          convertToInboundMessage (robotNickname p) (items ! 0) contactId]"
proof -
  from ts obtain i1 i2 i3 i4 i5 where items: "items = [i1, i2, i3, i4, i5]"
    and t: "created_at i1 = 100" "created_at i2 = 90" "created_at i3 = 80"
      "created_at i4 = 70" "created_at i5 = 60"
    by (rule list5)
  have f: "fst (filterNew contactId 80 items (seenMessageIds p)) = [i1, i2]"
    unfolding filterNew_distinct_keys [OF fresh(1)] using fresh(2) t by (simp add: items)
  have sk: "\<not> skipped (robotWxid p) i1" "\<not> skipped (robotWxid p) i2"
    using plain by (simp_all add: items)
  have nth: "items ! 1 = i2" "items ! 0 = i1"
    by (simp_all add: items)
  have "delivered (pollContact opts p contactId (Returned (Some items))) =
          fst (deliver opts (robotWxid p) (robotNickname p) contactId
                 (rev (fst (filterNew contactId 80 items (seenMessageIds p)))) (delivered p))"
    using cursor by (simp add: pollContact_def dataOrEmpty_def Let_def)
  also have "\<dots> = delivered p @ [convertToInboundMessage (robotNickname p) i2 contactId,
                                  convertToInboundMessage (robotNickname p) i1 contactId]"
    unfolding f deliver_all [OF cb] using sk by simp
  finally show ?thesis
    unfolding nth .
qed

theorem page_100_to_60_witness:
  "lastPollTimestamps (start (pollOnly [''a'']) (startAt 80 []) newPoller) ''a'' = Some 80
   \<and> map timestamp (delivered (pollContact (pollOnly [''a''])
        (start (pollOnly [''a'']) (startAt 80 []) newPoller) ''a'' (Returned (Some fivePage))))
     = [90000, 100000]"
proof -
  let ?p = "start (pollOnly [''a'']) (startAt 80 []) newPoller"
  have p: "lastPollTimestamps ?p ''a'' = Some 80" "seenMessageIds ?p = []" "robotWxid ?p = None"
    "delivered ?p = []"
    by (simp_all add: example_defs poller_defs Let_def)
  have "map created_at fivePage = [100, 90, 80, 70, 60]"
    by (simp add: fivePage_def textItem_def)
  moreover have "\<forall>item \<in> set fivePage. \<not> skipped (robotWxid ?p) item"
    by (simp add: p fivePage_def textItem_def skipped_def)
  moreover have "distinct (map (messageKey ''a'') fivePage)"
    by (simp add: fivePage_def textItem_def messageKey_def String_of_def)
  moreover have "\<forall>item \<in> set fivePage. messageKey ''a'' item \<notin> set (seenMessageIds ?p)"
    by (simp add: p)
  moreover have "\<forall>h m. onMessage (pollOnly [''a'']) h m"
    by (simp add: pollOnly_def)
  ultimately have "delivered (pollContact (pollOnly [''a'']) ?p ''a'' (Returned (Some fivePage))) =
      delivered ?p @ [convertToInboundMessage (robotNickname ?p) (fivePage ! 1) ''a'',
                      convertToInboundMessage (robotNickname ?p) (fivePage ! 0) ''a'']"
    using p(1) by (intro page_100_to_60_with_cursor_80) auto
  then show ?thesis
    by (simp add: p fivePage_def textItem_def convertToInboundMessage_def Let_def)
qed

text \<open>
  C10: a contact for which no cursor is stored (it was not in the contact list when
  \<open>start()\<close> seeded the cursors, and no page of it has set one since) is polled with
  the cursor 0. With a callback that completes and a page of distinct messages, the
  callback receives, oldest first, the items of the page that are not yet seen, were
  created after time 0 and are not skipped by the delivery loop; so every such item
  is delivered, whenever it was created, also before the poller started.
\<close>

theorem new_contact_first_page_delivered:
  assumes cursor: "lastPollTimestamps p contactId = None"
    and cb: "\<forall>h m. onMessage opts h m"
    and page: "distinct (map (messageKey contactId) items)"
  shows "delivered (pollContact opts p contactId (Returned (Some items))) =
           delivered p @ map (\<lambda>i. convertToInboundMessage (robotNickname p) i contactId)
             (filter (\<lambda>i. \<not> skipped (robotWxid p) i)
               (rev (filter (\<lambda>i. messageKey contactId i \<notin> set (seenMessageIds p) \<and> 0 < created_at i)
                  items)))
       \<and> (item \<in> set items \<and> messageKey contactId item \<notin> set (seenMessageIds p)
            \<and> 0 < created_at item \<and> \<not> skipped (robotWxid p) item \<longrightarrow>
          convertToInboundMessage (robotNickname p) item contactId
            \<in> set (delivered (pollContact opts p contactId (Returned (Some items)))))"
proof -
  have d: "delivered (pollContact opts p contactId (Returned (Some items))) =
           delivered p @ map (\<lambda>i. convertToInboundMessage (robotNickname p) i contactId)
             (filter (\<lambda>i. \<not> skipped (robotWxid p) i)
               (rev (filter (\<lambda>i. messageKey contactId i \<notin> set (seenMessageIds p) \<and> 0 < created_at i)
                  items)))"
    using cursor
    by (simp add: pollContact_def dataOrEmpty_def Let_def filterNew_distinct_keys [OF page]
        deliver_all [OF cb])
  show ?thesis
    unfolding d by auto
qed

theorem new_contact_first_page_witness:
  "lastPollTimestamps (start (pollEveryone 50) (startAt 1000 [''a'']) newPoller) ''a'' = Some 1000
   \<and> lastPollTimestamps (start (pollEveryone 50) (startAt 1000 [''a'']) newPoller) ''b'' = None
   \<and> map timestamp (delivered (pollContact (pollEveryone 50)
             (start (pollEveryone 50) (startAt 1000 [''a'']) newPoller) ''b''
             (Returned (Some [textItem 4 600, textItem 3 500])))) = [500000, 600000]
   \<and> convertToInboundMessage None (textItem 3 500) ''b''
       \<in> set (delivered (pollContact (pollEveryone 50)
             (start (pollEveryone 50) (startAt 1000 [''a'']) newPoller) ''b''
             (Returned (Some [textItem 4 600, textItem 3 500]))))"
proof -
  let ?p = "start (pollEveryone 50) (startAt 1000 [''a'']) newPoller"
  have p: "lastPollTimestamps ?p ''a'' = Some 1000" "lastPollTimestamps ?p ''b'' = None"
    "seenMessageIds ?p = []" "robotWxid ?p = None" "robotNickname ?p = None" "delivered ?p = []"
    by (simp_all add: example_defs poller_defs Let_def)
  have cb: "\<forall>h m. onMessage (pollEveryone 50) h m"
    by (simp add: pollEveryone_def)
  have page: "distinct (map (messageKey ''b'') [textItem 4 600, textItem 3 500])"
    by (simp add: textItem_def messageKey_def String_of_def)
  have sk: "\<not> skipped None (textItem 4 600)" "\<not> skipped None (textItem 3 500)"
    by (simp_all add: textItem_def skipped_def)
  have t: "created_at (textItem 4 600) = 600" "created_at (textItem 3 500) = 500"
    by (simp_all add: textItem_def)
  from new_contact_first_page_delivered [OF p(2) cb page, of "textItem 3 500"]
  show ?thesis
    by (simp add: p sk t convertToInboundMessage_def Let_def)
qed

subsection \<open>Identity keys\<close>



lemma digitChar_inj: "a < 10 \<Longrightarrow> b < 10 \<Longrightarrow> digitChar a = digitChar b \<Longrightarrow> a = b"
  using nth_eq_iff_index_eq [of "''0123456789''" a b] by (simp add: digitChar_def)

lemma digitChar_mem: "a < 10 \<Longrightarrow> digitChar a \<in> set ''0123456789''"
  using nth_mem [of a "''0123456789''"] by (simp add: digitChar_def)

lemma digits_small: "n < 10 \<Longrightarrow> digits n = [digitChar n]"
  by (subst digits.simps) simp

lemma digits_large: "\<not> n < 10 \<Longrightarrow> digits n = digits (n div 10) @ [digitChar (n mod 10)]"
  by (subst digits.simps) simp

lemma digitChar_plain: "a < 10 \<Longrightarrow> digitChar a \<noteq> CHR '':'' \<and> digitChar a \<noteq> CHR ''-''"
  using digitChar_mem [of a] by auto

lemma digits_plain: "CHR '':'' \<notin> set (digits n) \<and> CHR ''-'' \<notin> set (digits n)"
proof (induction n rule: digits.induct)
  case (1 n)
  show ?case
  proof (cases "n < 10")
    case True
    with digitChar_plain [of n] show ?thesis by (auto simp: digits_small)
  next
    case False
    from 1 [OF False] digitChar_plain [of "n mod 10"] show ?thesis
      by (auto simp: digits_large [OF False])
  qed
qed

lemma digits_nonempty: "digits n \<noteq> []"
  by (cases "n < 10") (simp_all add: digits_small digits_large)

lemma digits_inj: "digits m = digits n \<Longrightarrow> m = n"
proof (induction m arbitrary: n rule: digits.induct)
  case (1 m)
  show ?case
  proof (cases "m < 10")
    case True
    note m = digits_small [OF True]
    show ?thesis
    proof (cases "n < 10")
      case n: True
      from "1.prems" have "digitChar m = digitChar n"
        unfolding m digits_small [OF n] by (simp only: list.inject)
      with True n show ?thesis by (rule digitChar_inj)
    next
      case False
      from "1.prems" have "[digitChar m] = digits (n div 10) @ [digitChar (n mod 10)]"
        unfolding m digits_large [OF False] .
      then have "digits (n div 10) = []"
        by (cases "digits (n div 10)") simp_all
      with digits_nonempty [of "n div 10"] show ?thesis by blast
    qed
  next
    case False
    note m = digits_large [OF False]
    show ?thesis
    proof (cases "n < 10")
      case True
      from "1.prems" have "digits (m div 10) @ [digitChar (m mod 10)] = [digitChar n]"
        unfolding m digits_small [OF True] .
      then have "digits (m div 10) = []"
        by (cases "digits (m div 10)") simp_all
      with digits_nonempty [of "m div 10"] show ?thesis by blast
    next
      case n: False
      from "1.prems" have "digits (m div 10) @ [digitChar (m mod 10)] = digits (n div 10) @ [digitChar (n mod 10)]"
        unfolding m digits_large [OF n] .
      then have e: "digits (m div 10) = digits (n div 10)" "digitChar (m mod 10) = digitChar (n mod 10)"
        by (simp_all only: append1_eq_conv)
      from "1.IH" [OF False e(1)] have "m div 10 = n div 10" .
      moreover have "m mod 10 = n mod 10"
        by (rule digitChar_inj [OF _ _ e(2)]) simp_all
      ultimately show ?thesis by (metis div_mult_mod_eq)
    qed
  qed
qed

lemma String_of_plain: "CHR '':'' \<notin> set (String_of n)"
  using digits_plain [of "nat n"] digits_plain [of "nat (- n)"]
  by (simp add: String_of_def)

lemma digits_hd: "hd (digits k) \<noteq> CHR ''-''"
proof -
  from digits_nonempty [of k] have "hd (digits k) \<in> set (digits k)" by simp
  with digits_plain [of k] show ?thesis by metis
qed

lemma String_of_inj: "String_of m = String_of n \<Longrightarrow> m = n"
proof -
  assume e: "String_of m = String_of n"
  show "m = n"
  proof (cases "m < 0")
    case True
    show ?thesis
    proof (cases "n < 0")
      case n: True
      with True e have "digits (nat (- m)) = digits (nat (- n))" by (simp add: String_of_def)
      from digits_inj [OF this] True n show ?thesis by simp
    next
      case False
      with True e have "CHR ''-'' # digits (nat (- m)) = digits (nat n)" by (simp add: String_of_def)
      then have "hd (digits (nat n)) = CHR ''-''" by (metis list.sel(1))
      with digits_hd [of "nat n"] show ?thesis by blast
    qed
  next
    case False
    show ?thesis
    proof (cases "n < 0")
      case True
      with False e have "digits (nat m) = CHR ''-'' # digits (nat (- n))" by (simp add: String_of_def)
      then have "hd (digits (nat m)) = CHR ''-''" by (metis list.sel(1))
      with digits_hd [of "nat m"] show ?thesis by blast
    next
      case n: False
      with False e have "digits (nat m) = digits (nat n)" by (simp add: String_of_def)
      from digits_inj [OF this] False n show ?thesis by simp
    qed
  qed
qed

lemma colon_split:
  assumes "c @ CHR '':'' # d = c' @ CHR '':'' # d'" "CHR '':'' \<notin> set c" "CHR '':'' \<notin> set c'"
  shows "c = c' \<and> d = d'"
proof -
  have "takeWhile (\<lambda>x. x \<noteq> CHR '':'') (c @ CHR '':'' # d) = c"
    "takeWhile (\<lambda>x. x \<noteq> CHR '':'') (c' @ CHR '':'' # d') = c'"
    using assms(2,3) by (auto simp: takeWhile_tail)
  with assms(1) have "c = c'" by simp
  with assms(1) show ?thesis by simp
qed

lemma messageKey_inj:
  assumes "messageKey c item = messageKey c' item'" "CHR '':'' \<notin> set c" "CHR '':'' \<notin> set c'"
  shows "c = c' \<and> msg_id item = msg_id item'"
proof -
  from assms(1) have "c @ CHR '':'' # String_of (msg_id item) = c' @ CHR '':'' # String_of (msg_id item')"
    by (simp add: messageKey_def)
  from colon_split [OF this assms(2,3)] String_of_inj show ?thesis by blast
qed

subsection \<open>Pages that deliver nothing\<close>

lemma deliver_skipped:
  "\<forall>item \<in> set items. skipped w item \<Longrightarrow> deliver opts w n c items lg = (lg, True)"
  by (induction items) simp_all

lemma quiet_contact:
  assumes sk: "\<forall>item \<in> set items. skipped (robotWxid p) item"
    and d: "distinct (map (messageKey c) items)"
    and f: "\<forall>item \<in> set items. messageKey c item \<notin> set (seenMessageIds p)"
  shows "seenMessageIds (pollContact opts p c (Returned (Some items)))
           = seenMessageIds p @ map (messageKey c) items"
    and "delivered (pollContact opts p c (Returned (Some items))) = delivered p"
    and "robotWxid (pollContact opts p c (Returned (Some items))) = robotWxid p"
    and "robotNickname (pollContact opts p c (Returned (Some items))) = robotNickname p"
proof -
  let ?t = "case lastPollTimestamps p c of None \<Rightarrow> 0 | Some t \<Rightarrow> t"
  have k: "filter (\<lambda>k. k \<notin> set (seenMessageIds p)) (map (messageKey c) items) = map (messageKey c) items"
    using f by (simp add: filter_id_conv)
  have s: "\<forall>item \<in> set (rev (filter (\<lambda>i. messageKey c i \<notin> set (seenMessageIds p) \<and> ?t < created_at i) items)).
             skipped (robotWxid p) item"
    using sk by simp
  show "seenMessageIds (pollContact opts p c (Returned (Some items)))
           = seenMessageIds p @ map (messageKey c) items"
    by (simp add: pollContact_def dataOrEmpty_def Let_def filterNew_distinct_keys [OF d] k)
  show "delivered (pollContact opts p c (Returned (Some items))) = delivered p"
    by (simp add: pollContact_def dataOrEmpty_def Let_def filterNew_distinct_keys [OF d]
        deliver_skipped [OF s])
  show "robotWxid (pollContact opts p c (Returned (Some items))) = robotWxid p"
    "robotNickname (pollContact opts p c (Returned (Some items))) = robotNickname p"
    by (simp_all add: pollContact_def Let_def)
qed

lemma quiet_loop:
  assumes env: "\<And>i c. historyResponse env i c = Returned (Some (page c))" "\<And>i. \<not> stopped env i"
  shows "\<forall>c \<in> set cs. \<forall>item \<in> set (page c). skipped (robotWxid p) item \<Longrightarrow>
         distinct (seenMessageIds p @ concat (map (\<lambda>c. map (messageKey c) (page c)) cs)) \<Longrightarrow>
         seenMessageIds (pollLoop opts env i cs p)
           = seenMessageIds p @ concat (map (\<lambda>c. map (messageKey c) (page c)) cs)
         \<and> delivered (pollLoop opts env i cs p) = delivered p
         \<and> robotWxid (pollLoop opts env i cs p) = robotWxid p
         \<and> robotNickname (pollLoop opts env i cs p) = robotNickname p
         \<and> (\<forall>c'. c' \<notin> set cs \<longrightarrow>
               lastPollTimestamps (pollLoop opts env i cs p) c' = lastPollTimestamps p c')"
proof (induction cs arbitrary: i p)
  case Nil
  then show ?case by simp
next
  case (Cons c cs)
  let ?p1 = "pollContact opts p c (Returned (Some (page c)))"
  from Cons.prems have sk: "\<forall>item \<in> set (page c). skipped (robotWxid p) item"
    and d: "distinct (map (messageKey c) (page c))"
    and f: "\<forall>item \<in> set (page c). messageKey c item \<notin> set (seenMessageIds p)"
    by auto
  note q = quiet_contact [OF sk d f, of opts]
  have "\<forall>c \<in> set cs. \<forall>item \<in> set (page c). skipped (robotWxid ?p1) item"
    using Cons.prems(1) by (simp add: q)
  moreover have "distinct (seenMessageIds ?p1 @ concat (map (\<lambda>c. map (messageKey c) (page c)) cs))"
    using Cons.prems(2) by (simp add: q)
  ultimately have IH: "seenMessageIds (pollLoop opts env (Suc i) cs ?p1)
           = seenMessageIds ?p1 @ concat (map (\<lambda>c. map (messageKey c) (page c)) cs)
         \<and> delivered (pollLoop opts env (Suc i) cs ?p1) = delivered ?p1
         \<and> robotWxid (pollLoop opts env (Suc i) cs ?p1) = robotWxid ?p1
         \<and> robotNickname (pollLoop opts env (Suc i) cs ?p1) = robotNickname ?p1
         \<and> (\<forall>c'. c' \<notin> set cs \<longrightarrow>
               lastPollTimestamps (pollLoop opts env (Suc i) cs ?p1) c' = lastPollTimestamps ?p1 c')"
    by (rule Cons.IH)
  have step: "pollLoop opts env i (c # cs) p = pollLoop opts env (Suc i) cs ?p1"
    by (simp add: env)
  show ?case
    unfolding step using IH by (simp add: q pollContact_cursor_other)
qed

lemma pushUpTo_all:
  "int (length acc + length xs) \<le> m \<Longrightarrow> pushUpTo m acc xs = acc @ xs"
  by (induction xs arbitrary: acc) auto

lemma resolve_everyone:
  "int (length friends) < m \<Longrightarrow>
   resolveContactIds (pollingConfig (pollEveryone m)) (Returned (Some friends)) (Returned (Some []))
     = friends"
  by (simp add: resolveContactIds_def resolveAllContacts_def pollEveryone_def dataOrEmpty_def
      pushUpTo_all Let_def)

lemma fold_removeAll_prefix: "distinct (xs @ zs) \<Longrightarrow> fold removeAll xs (xs @ zs) = zs"
  by (induction xs) auto

lemma evict_distinct:
  assumes "distinct seen"
  shows "fold removeAll (take n seen) seen = drop n seen"
  using fold_removeAll_prefix [of "take n seen" "drop n seen"] assms by simp

lemma friendName_plain: "CHR '':'' \<notin> set (friendName i)"
  using digits_plain [of i] by (simp add: friendName_def)

lemma friendName_inj: "friendName i = friendName j \<Longrightarrow> i = j"
  by (simp add: friendName_def digits_inj)

lemma distinct_concat_map:
  "distinct cs \<Longrightarrow> (\<And>c. c \<in> set cs \<Longrightarrow> distinct (f c)) \<Longrightarrow>
   (\<And>c c'. c \<in> set cs \<Longrightarrow> c' \<in> set cs \<Longrightarrow> c \<noteq> c' \<Longrightarrow> set (f c) \<inter> set (f c') = {}) \<Longrightarrow>
   distinct (concat (map f cs))"
proof (induction cs)
  case Nil
  then show ?case by simp
next
  case (Cons c cs)
  have "distinct (concat (map f cs))"
    using Cons.prems by (intro Cons.IH) auto
  moreover have "distinct (f c)"
    using Cons.prems(2) by simp
  moreover have "\<And>c'. c' \<in> set cs \<Longrightarrow> set (f c) \<inter> set (f c') = {}"
    using Cons.prems(1,3) by (metis distinct.simps(2) list.set_intros(1) list.set_intros(2))
  ultimately show ?case by auto
qed

lemma robotPage_keys: "distinct (map (messageKey c) robotPage)"
proof -
  have "inj_on (\<lambda>j. messageKey c (robotItem (20 - int j) (520 - int j))) (set [0..<20])"
  proof (rule inj_onI)
    fix x y :: nat
    assume "messageKey c (robotItem (20 - int x) (520 - int x)) = messageKey c (robotItem (20 - int y) (520 - int y))"
    then have "String_of (20 - int x) = String_of (20 - int y)"
      by (simp add: messageKey_def robotItem_def)
    from String_of_inj [OF this] show "x = y" by simp
  qed
  then show ?thesis
    by (simp add: robotPage_def distinct_map comp_def)
qed

lemma friends_keys:
  "distinct (concat (map (\<lambda>c. map (messageKey c) robotPage) (map friendName [a..<b])))"
proof (rule distinct_concat_map)
  show "distinct (map friendName [a..<b])"
    by (simp add: distinct_map inj_on_def friendName_inj)
next
  fix c
  show "distinct (map (messageKey c) robotPage)"
    by (rule robotPage_keys)
next
  fix c c'
  assume c: "c \<in> set (map friendName [a..<b])" "c' \<in> set (map friendName [a..<b])" "c \<noteq> c'"
  then have p: "CHR '':'' \<notin> set c" "CHR '':'' \<notin> set c'"
    using friendName_plain by auto
  show "set (map (messageKey c) robotPage) \<inter> set (map (messageKey c') robotPage) = {}"
  proof (rule ccontr)
    assume "set (map (messageKey c) robotPage) \<inter> set (map (messageKey c') robotPage) \<noteq> {}"
    then obtain x y where "messageKey c x = messageKey c' y"
      by auto
    from messageKey_inj [OF this p] c(3) show False by simp
  qed
qed

lemma friends_keys_length:
  "length (concat (map (\<lambda>c. map (messageKey c) robotPage) cs)) = 20 * length cs"
  by (induction cs) (simp_all add: robotPage_def)

lemma friends_keys_mem:
  "k \<in> set (concat (map (\<lambda>c. map (messageKey c) robotPage) (map friendName [a..<b]))) \<Longrightarrow>
   \<exists>i item. a \<le> i \<and> k = messageKey (friendName i) item"
  by auto

lemma robotPage_skipped: "\<forall>item \<in> set robotPage. skipped w item"
  by (simp add: robotPage_def robotItem_def skipped_def)

subsection \<open>Eviction\<close>

lemma friendsUpTo_length [simp]: "length (friendsUpTo n) = n"
  by (simp add: friendsUpTo_def)

lemma friendsUpTo_Cons: "0 < n \<Longrightarrow> friendsUpTo n = friendName 0 # map friendName [1..<n]"
  by (simp add: friendsUpTo_def upt_conv_Cons del: upt_rec_numeral)

lemma seedTimestamps_apply:
  "seedTimestamps t cs m c = (if c \<in> set cs then Some t else m c)"
  by (induction cs arbitrary: m) auto

lemma start_fields:
  "seenMessageIds (start opts (startAt t fs) newPoller) = []"
  "delivered (start opts (startAt t fs) newPoller) = []"
  "robotWxid (start opts (startAt t fs) newPoller) = None"
  "robotNickname (start opts (startAt t fs) newPoller) = None"
  "evictions (start opts (startAt t fs) newPoller) = 0"
  by (simp_all add: start_def startAt_def newPoller_def fetchRobotInfo_def Let_def)

lemma start_cursor:
  "int (length fs) < m \<Longrightarrow>
   lastPollTimestamps (start (pollEveryone m) (startAt t fs) newPoller) c
     = (if c \<in> set fs then Some t else None)"
  using resolve_everyone [of fs m]
  by (simp add: start_def startAt_def newPoller_def fetchRobotInfo_def Let_def seedTimestamps_apply)

lemma poll_everyone:
  "int (length friends) < m \<Longrightarrow> friends \<noteq> [] \<Longrightarrow>
   poll (pollEveryone m) (pagesOf friends page) p
     = cleanSeen (pollLoop (pollEveryone m) (pagesOf friends page) 0 friends p)"
  using resolve_everyone [of friends m]
  by (simp add: poll_def pagesOf_def Let_def)

lemma pagesOf_env:
  "historyResponse (pagesOf friends page) i c = Returned (Some (page c))"
  "\<not> stopped (pagesOf friends page) i"
  by (simp_all add: pagesOf_def)

lemma cleanSeen_small: "length (seenMessageIds p) \<le> 10000 \<Longrightarrow> cleanSeen p = p"
  by (simp add: cleanSeen_def)

lemma cleanSeen_large:
  assumes "10000 < length (seenMessageIds p)" "distinct (seenMessageIds p)"
  shows "seenMessageIds (cleanSeen p) = drop 5000 (seenMessageIds p)"
    and "delivered (cleanSeen p) = delivered p"
    and "robotWxid (cleanSeen p) = robotWxid p"
    and "robotNickname (cleanSeen p) = robotNickname p"
    and "evictions (cleanSeen p) = Suc (evictions p)"
  using assms by (simp_all add: cleanSeen_def evict_distinct)

lemma single_old:
  assumes "messageKey c item \<notin> set (seenMessageIds p)" "lastPollTimestamps p c = Some t"
    "created_at item \<le> t"
  shows "seenMessageIds (pollContact opts p c (Returned (Some [item]))) = seenMessageIds p @ [messageKey c item]"
    and "delivered (pollContact opts p c (Returned (Some [item]))) = delivered p"
    and "lastPollTimestamps (pollContact opts p c (Returned (Some [item]))) c = Some (created_at item)"
    and "robotWxid (pollContact opts p c (Returned (Some [item]))) = robotWxid p"
    and "robotNickname (pollContact opts p c (Returned (Some [item]))) = robotNickname p"
  using assms by (simp_all add: pollContact_def dataOrEmpty_def Let_def)

lemma single_new:
  assumes "messageKey c item \<notin> set (seenMessageIds p)" "lastPollTimestamps p c = Some t"
    "t < created_at item" "\<not> skipped (robotWxid p) item" "\<forall>h m. onMessage opts h m"
  shows "seenMessageIds (pollContact opts p c (Returned (Some [item]))) = seenMessageIds p @ [messageKey c item]"
    and "delivered (pollContact opts p c (Returned (Some [item])))
           = delivered p @ [convertToInboundMessage (robotNickname p) item c]"
    and "lastPollTimestamps (pollContact opts p c (Returned (Some [item]))) c = Some (created_at item)"
    and "robotWxid (pollContact opts p c (Returned (Some [item]))) = robotWxid p"
    and "robotNickname (pollContact opts p c (Returned (Some [item]))) = robotNickname p"
  using assms by (simp_all add: pollContact_def dataOrEmpty_def Let_def)

lemma friend0_key_fresh:
  assumes "1 \<le> a"
  shows "messageKey (friendName 0) item
           \<notin> set (concat (map (\<lambda>c. map (messageKey c) robotPage) (map friendName [a..<b])))"
proof
  assume "messageKey (friendName 0) item
           \<in> set (concat (map (\<lambda>c. map (messageKey c) robotPage) (map friendName [a..<b])))"
  from friends_keys_mem [OF this] obtain i item' where i: "a \<le> i"
    "messageKey (friendName 0) item = messageKey (friendName i) item'" by blast
  from messageKey_inj [OF i(2) friendName_plain friendName_plain] have "friendName 0 = friendName i"
    by simp
  from friendName_inj [OF this] i(1) assms show False by simp
qed

lemma many_friends_cycle:
  fixes t m :: int and n :: nat
  assumes n: "int n < m" "0 < n"
  defines "p0 \<equiv> start (pollEveryone m) (startAt t (friendsUpTo n)) newPoller"
  defines "env \<equiv> pagesOf (friendsUpTo n) (\<lambda>c. robotPage)"
  shows "seenMessageIds (pollLoop (pollEveryone m) env 0 (friendsUpTo n) p0)
           = concat (map (\<lambda>c. map (messageKey c) robotPage) (friendsUpTo n))"
    and "poll (pollEveryone m) env p0 = cleanSeen (pollLoop (pollEveryone m) env 0 (friendsUpTo n) p0)"
    and "distinct (seenMessageIds (pollLoop (pollEveryone m) env 0 (friendsUpTo n) p0))"
proof -
  have d: "distinct (seenMessageIds p0 @ concat (map (\<lambda>c. map (messageKey c) robotPage) (friendsUpTo n)))"
    unfolding p0_def start_fields friendsUpTo_def using friends_keys [of 0 n] by simp
  have s: "\<forall>c \<in> set (friendsUpTo n). \<forall>item \<in> set robotPage. skipped (robotWxid p0) item"
    using robotPage_skipped by blast
  from quiet_loop [of env "\<lambda>c. robotPage" "friendsUpTo n" p0 "pollEveryone m" 0, OF _ _ s d]
  have q: "seenMessageIds (pollLoop (pollEveryone m) env 0 (friendsUpTo n) p0)
           = seenMessageIds p0 @ concat (map (\<lambda>c. map (messageKey c) robotPage) (friendsUpTo n))"
    by (simp add: env_def pagesOf_env)
  then show "seenMessageIds (pollLoop (pollEveryone m) env 0 (friendsUpTo n) p0)
           = concat (map (\<lambda>c. map (messageKey c) robotPage) (friendsUpTo n))"
    by (simp add: p0_def start_fields)
  from q d show "distinct (seenMessageIds (pollLoop (pollEveryone m) env 0 (friendsUpTo n) p0))"
    by simp
  have "friendsUpTo n \<noteq> []"
    using n(2) by (metis friendsUpTo_length length_0_conv less_numeral_extra(3))
  then show "poll (pollEveryone m) env p0 = cleanSeen (pollLoop (pollEveryone m) env 0 (friendsUpTo n) p0)"
    unfolding env_def using n(1) by (intro poll_everyone) simp_all
qed

text \<open>
  C4 (as stated, refuted): at the end of every polling cycle a seen-set of more than
  10,000 keys loses its 5,000 oldest. A poller of all contacts (at most 1000) with 751
  friends, each with a page of twenty messages of the robot: the first cycle sees
  15,020 keys and evicts 5,000, so that 10,020 remain. In the second cycle the friend
  list call fails, the contact list is empty, and \<open>poll()\<close> returns at once: the
  seen-set still holds its 10,020 keys when the cycle ends.
\<close>

theorem empty_cycle_keeps_large_seen_set:
  "length (seenMessageIds (poll (pollEveryone 1000) (pagesOf (friendsUpTo 751) (\<lambda>c. robotPage))
      (start (pollEveryone 1000) (startAt 1000 (friendsUpTo 751)) newPoller))) = 10020
   \<and> seenMessageIds (poll (pollEveryone 1000) directoryDown
        (poll (pollEveryone 1000) (pagesOf (friendsUpTo 751) (\<lambda>c. robotPage))
          (start (pollEveryone 1000) (startAt 1000 (friendsUpTo 751)) newPoller)))
     = seenMessageIds (poll (pollEveryone 1000) (pagesOf (friendsUpTo 751) (\<lambda>c. robotPage))
          (start (pollEveryone 1000) (startAt 1000 (friendsUpTo 751)) newPoller))"
proof -
  let ?p0 = "start (pollEveryone 1000) (startAt 1000 (friendsUpTo 751)) newPoller"
  let ?env = "pagesOf (friendsUpTo 751) (\<lambda>c. robotPage)"
  let ?pl = "pollLoop (pollEveryone 1000) ?env 0 (friendsUpTo 751) ?p0"
  note c = many_friends_cycle [of 751 1000 1000, simplified]
  have l: "length (seenMessageIds ?pl) = 15020"
    unfolding c(1) friends_keys_length by simp
  then have "10000 < length (seenMessageIds ?pl)" by simp
  from cleanSeen_large(1) [OF this c(3)] l
  have "length (seenMessageIds (poll (pollEveryone 1000) ?env ?p0)) = 10020"
    unfolding c(2) by simp
  moreover have "\<And>p. poll (pollEveryone 1000) directoryDown p = p"
    by (simp add: poll_def directoryDown_def pollEveryone_def resolveContactIds_def
        resolveAllContacts_def Let_def)
  ultimately show ?thesis by simp
qed

lemma pollContact_distinct:
  "distinct (seenMessageIds p) \<Longrightarrow> distinct (seenMessageIds (pollContact opts p c r))"
proof (cases r)
  case Threw
  then show "distinct (seenMessageIds p) \<Longrightarrow> ?thesis" by (simp add: pollContact_def)
next
  case (Returned d)
  assume dp: "distinct (seenMessageIds p)"
  let ?t = "case lastPollTimestamps p c of None \<Rightarrow> 0 | Some t \<Rightarrow> t"
  from filterNew_general [where c = c and t = ?t and items = "dataOrEmpty d"
      and seen = "seenMessageIds p", OF refl refl] dp
  have "distinct (snd (filterNew c ?t (dataOrEmpty d) (seenMessageIds p)))" by blast
  then show ?thesis
    by (simp add: Returned pollContact_def Let_def)
qed

lemma pollLoop_distinct:
  "distinct (seenMessageIds p) \<Longrightarrow> distinct (seenMessageIds (pollLoop opts env i cs p))"
  by (induction cs arbitrary: i p) (simp_all add: pollContact_distinct)

text \<open>
  C4 (amended): at the end of every polling cycle whose contact list is not empty, if
  the seen-set holds more than 10,000 keys, exactly its 5,000 oldest-inserted keys are
  removed, and if it holds 10,000 or fewer it is left as it is; a cycle whose contact
  list is empty returns at once and leaves the seen-set as it is, whatever its size.
  (The seen-set is a \<open>Set\<close>: it holds no key twice.)
\<close>

theorem seen_set_after_cycle:
  assumes "distinct (seenMessageIds p)"
  shows "seenMessageIds (poll opts env p) =
    (if resolveContactIds (pollingConfig opts) (friendsResponse env) (roomsResponse env) = []
     then seenMessageIds p
     else if 10000 < length (seenMessageIds (pollLoop opts env 0
               (resolveContactIds (pollingConfig opts) (friendsResponse env) (roomsResponse env)) p))
     then drop 5000 (seenMessageIds (pollLoop opts env 0
               (resolveContactIds (pollingConfig opts) (friendsResponse env) (roomsResponse env)) p))
     else seenMessageIds (pollLoop opts env 0
               (resolveContactIds (pollingConfig opts) (friendsResponse env) (roomsResponse env)) p))"
  using pollLoop_distinct [OF assms, of opts env 0
      "resolveContactIds (pollingConfig opts) (friendsResponse env) (roomsResponse env)"]
  by (simp add: poll_def cleanSeen_def evict_distinct Let_def)

theorem seen_set_after_cycle_witness:
  "seenMessageIds (poll (pollEveryone 1000) (pagesOf (friendsUpTo 751) (\<lambda>c. robotPage))
      (start (pollEveryone 1000) (startAt 1000 (friendsUpTo 751)) newPoller))
   = drop 5000 (concat (map (\<lambda>c. map (messageKey c) robotPage) (friendsUpTo 751)))"
proof -
  let ?o = "pollEveryone 1000"
  let ?p0 = "start ?o (startAt 1000 (friendsUpTo 751)) newPoller"
  let ?env = "pagesOf (friendsUpTo 751) (\<lambda>c. robotPage)"
  note c = many_friends_cycle [of 751 1000 1000, simplified]
  have r: "resolveContactIds (pollingConfig ?o) (friendsResponse ?env) (roomsResponse ?env) = friendsUpTo 751"
    using resolve_everyone [of "friendsUpTo 751" 1000] by (simp add: pagesOf_def)
  have ne: "friendsUpTo 751 \<noteq> []"
    by (simp add: friendsUpTo_Cons)
  have l: "10000 < length (seenMessageIds (pollLoop ?o ?env 0 (friendsUpTo 751) ?p0))"
    unfolding c(1) friends_keys_length by simp
  have "distinct (seenMessageIds ?p0)"
    by (simp add: start_fields)
  from seen_set_after_cycle [OF this, of ?o ?env] show ?thesis
    unfolding r using ne l by (simp add: c(1))
qed


subsection \<open>A key delivered twice\<close>

lemma poll_one_friend:
  "poll (pollEveryone 1000) (pageOf [c] items) p
     = cleanSeen (pollContact (pollEveryone 1000) p c (Returned (Some items)))"
  by (simp add: poll_def pageOf_def pollEveryone_def resolveContactIds_def resolveAllContacts_def
      dataOrEmpty_def Let_def)

lemma cb_everyone: "\<forall>h msg. onMessage (pollEveryone m) h msg"
  by (simp add: pollEveryone_def)


section \<open>Properties of the token resolver\<close>

lemma tokenOf_accounts_update [simp]:
  "tokenOf rf (base\<lparr>accounts := x\<rparr>) = tokenOf rf base"
  by (simp add: tokenOf_def Let_def)

lemma accountEntry_withoutAccount:
  "accountEntry (withoutAccount d config) a = (if a = d then None else accountEntry config a)"
  by (simp add: accountEntry_def withoutAccount_def split: option.splits)

lemma base_withoutAccount:
  "(case withoutAccount d config of None \<Rightarrow> None | Some base \<Rightarrow> tokenOf rf base)
     = (case config of None \<Rightarrow> None | Some base \<Rightarrow> tokenOf rf base)"
  by (simp add: withoutAccount_def split: option.splits)




section \<open>Properties of the inbound dispatcher\<close>

lemmas handler_defs =
  mentionFiltered_def requireMentionOf_def effectivePolicy_def dmPolicyOf_def groupPolicyOf_def
  senderListed_def allowList_def pairingSenderId_def pairingSenderName_def requestSenderName_def
  hostReplying_def messageFrom_def depsWith_def toLowerCase_def lowerChar_def

text \<open>
  C6: a group message that does not mention the robot, with \<open>requireMention\<close> true (set,
  or left to its default), makes the handler return after its first log line, in both
  versions of the handler: no access check is logged, no pairing reply is built, no
  request is registered, nothing is sent, routed or dispatched; and the outcome is the
  same for every allow-list, every policy and every host.
\<close>

theorem mention_filter_before_access_control:
  assumes "chatType msg = Group" "\<not> isAtMe msg" "requireMention deps \<noteq> Some False"
  shows "handleWeChatInboundMessage runtime msg deps = [LogGroupCheck True False]
       \<and> handleWeChatInboundMessage_v1 runtime msg deps = [LogGroupCheck True False]
       \<and> handleWeChatInboundMessage runtime' msg
            (deps\<lparr>allowFrom := al, dmPolicy := dp, groupPolicy := gp, commandAllowFrom := ca\<rparr>)
          = handleWeChatInboundMessage runtime msg deps
       \<and> handleWeChatInboundMessage_v1 runtime' msg
            (deps\<lparr>allowFrom := al, dmPolicy := dp, groupPolicy := gp, commandAllowFrom := ca\<rparr>)
          = handleWeChatInboundMessage_v1 runtime msg deps"
  using assms
  by (cases "requireMention deps")
     (simp_all add: handleWeChatInboundMessage_def handleWeChatInboundMessage_v1_def
       mentionFiltered_def requireMentionOf_def)

theorem mention_filter_witness:
  "handleWeChatInboundMessage (hostReplying (Some ''pair?'')) (messageFrom Group False) (depsWith Open [])
     = [LogGroupCheck True False]
   \<and> handleWeChatInboundMessage (hostReplying None) (messageFrom Group False)
        ((depsWith Open [])\<lparr>allowFrom := Some [''wxid_bob''], dmPolicy := Some Pairing,
           groupPolicy := Some Pairing, commandAllowFrom := Some [''wxid_bob'']\<rparr>)
     = handleWeChatInboundMessage (hostReplying (Some ''pair?'')) (messageFrom Group False) (depsWith Open [])"
  using mention_filter_before_access_control [of "messageFrom Group False" "depsWith Open []"
      "hostReplying (Some ''pair?'')" "hostReplying None" "Some [''wxid_bob'']" "Some Pairing"
      "Some Pairing" "Some [''wxid_bob'']"]
  by (simp add: messageFrom_def depsWith_def)

text \<open>
  C7 (as stated, refuted): under the pairing policy every message of an unlisted sender
  registers one pairing request and sends one reply. A direct message of an unlisted
  sender, with a host whose \<open>buildPairingReply\<close> gives no reply: the handler logs the
  access check, builds the reply, and registers and sends nothing.
\<close>

theorem pairing_without_reply_registers_nothing:
  "handleWeChatInboundMessage (hostReplying None) (messageFrom Direct False) (depsWith Pairing [])
     = [LogAccessCheck ''wxid_bob'' Direct Pairing False False False,
        BuildPairingReply ''wxid_bob'' ''Bob'']"
  by (simp add: handleWeChatInboundMessage_def pairingBlock_def handler_defs Let_def)

text \<open>
  C7 (amended): for a message that passes the mention filter, from a sender whose
  normalized id is not in the normalized allow-list, under the pairing policy (the
  effective policy; in src/inbound.ts the one policy), the handler builds the pairing
  reply, and when the host gives a non-empty reply registers exactly one pairing
  request and sends that reply once, and when the host gives none registers and sends
  nothing; then it returns: no activity record, no routing, no dispatch.
\<close>

theorem pairing_unlisted_sender:
  assumes "\<not> mentionFiltered msg deps" "\<not> senderListed msg (allowList deps)"
    and "buildPairingReply runtime (pairingSenderId msg) (pairingSenderName msg) = reply"
  shows "(effectivePolicy msg deps = Pairing \<longrightarrow>
           handleWeChatInboundMessage runtime msg deps =
             (if chatType msg = Group then [LogGroupCheck (requireMentionOf deps) (isAtMe msg)] else [])
             @ [LogAccessCheck (toLowerCase (senderWxid msg)) (chatType msg) Pairing False False
                  (senderListed msg (case commandAllowFrom deps of None \<Rightarrow> allowList deps | Some l \<Rightarrow> l)),
                BuildPairingReply (pairingSenderId msg) (pairingSenderName msg)]
             @ (if reply \<noteq> None \<and> the reply \<noteq> []
                then [UpsertPairingRequest (accountId deps) (pairingSenderId msg) (requestSenderName msg),
                      SendMessageWeChat (pairingSenderId msg) (the reply)]
                else []))
       \<and> (dmPolicyOf deps = Pairing \<longrightarrow>
           handleWeChatInboundMessage_v1 runtime msg deps =
             (if chatType msg = Group then [LogGroupCheck (requireMentionOf deps) (isAtMe msg)] else [])
             @ [LogAllowlistCheck (toLowerCase (senderWxid msg)) False Pairing,
                BuildPairingReply (pairingSenderId msg) (pairingSenderName msg)]
             @ (if reply \<noteq> None \<and> the reply \<noteq> []
                then [UpsertPairingRequest (accountId deps) (pairingSenderId msg) (requestSenderName msg),
                      SendMessageWeChat (pairingSenderId msg) (the reply)]
                else []))"
  using assms
  by (simp add: handleWeChatInboundMessage_def handleWeChatInboundMessage_v1_def pairingBlock_def Let_def)

theorem pairing_unlisted_sender_witness:
  "handleWeChatInboundMessage (hostReplying (Some ''pair?'')) (messageFrom Direct False) (depsWith Pairing [])
     = [LogAccessCheck ''wxid_bob'' Direct Pairing False False False,
        BuildPairingReply ''wxid_bob'' ''Bob'',
        UpsertPairingRequest ''default'' ''wxid_bob'' (Some ''Bob''),
        SendMessageWeChat ''wxid_bob'' ''pair?'']"
  using pairing_unlisted_sender [of "messageFrom Direct False" "depsWith Pairing []"
      "hostReplying (Some ''pair?'')" "Some ''pair?''"]
  by (simp add: handler_defs)

section \<open>Properties of the chunker\<close>

lemma lastIndexOf_absent: "c \<notin> set s \<Longrightarrow> lastIndexOf s c = - 1"
  by (induction s) auto

lemma trimStart_plain: "\<forall>c \<in> set s. \<not> isWhiteSpace c \<Longrightarrow> trimStart s = s"
  by (cases s) (simp_all add: trimStart_def)

lemma trimEnd_plain: "\<forall>c \<in> set s. \<not> isWhiteSpace c \<Longrightarrow> trimEnd s = s"
proof -
  assume a: "\<forall>c \<in> set s. \<not> isWhiteSpace c"
  have "rev s = [] \<or> \<not> isWhiteSpace (hd (rev s))"
  proof (cases "s = []")
    case True
    then show ?thesis by simp
  next
    case False
    then have "hd (rev s) \<in> set s"
      by (simp add: hd_rev)
    with a show ?thesis by blast
  qed
  then have "dropWhile isWhiteSpace (rev s) = rev s"
    by (simp only: dropWhile_eq_self_iff)
  then show ?thesis by (simp add: trimEnd_def)
qed

lemma chunkLoop_plain_step:
  assumes plain: "\<forall>c \<in> set remaining. \<not> isWhiteSpace c"
    and limit: "0 < limit" "limit < length remaining"
  shows "chunkLoop limit remaining chunks
           = chunkLoop limit (drop limit remaining) (chunks @ [take limit remaining])"
proof -
  have nl: "isWhiteSpace (CHR 0x0A)" and sp: "isWhiteSpace (CHR 0x20)"
    by (simp_all add: isWhiteSpace_def)
  have w: "\<forall>c \<in> set (take limit remaining). \<not> isWhiteSpace c"
    using plain by (meson in_set_takeD)
  have d: "\<forall>c \<in> set (drop limit remaining). \<not> isWhiteSpace c"
    using plain by (meson in_set_dropD)
  from w nl sp have i: "lastIndexOf (take limit remaining) (CHR 0x0A) = - 1"
    "lastIndexOf (take limit remaining) (CHR 0x20) = - 1"
    by (auto intro!: lastIndexOf_absent)
  have b: "\<not> isWhiteSpace (remaining ! limit)"
    using plain limit(2) by simp
  have t: "take limit remaining \<noteq> []"
    using limit by auto
  have m: "min (length remaining) limit = limit" "\<not> length remaining \<le> limit"
    "remaining \<noteq> []"
    using limit by auto
  show ?thesis
    by (subst chunkLoop.simps)
       (simp add: limit i b t m trimEnd_plain [OF w] trimStart_plain [OF d] Let_def)
qed

lemma chunkLoop_plain:
  assumes "0 < limit"
  shows "\<forall>c \<in> set remaining. \<not> isWhiteSpace c \<Longrightarrow>
         \<exists>ps. chunkLoop limit remaining chunks = chunks @ ps \<and> concat ps = remaining
              \<and> (\<forall>p \<in> set (butlast ps). length p = limit) \<and> [] \<notin> set ps"
proof (induction "length remaining" arbitrary: remaining chunks rule: less_induct)
  case less
  show ?case
  proof (cases "limit < length remaining")
    case False
    then have "chunkLoop limit remaining chunks = (if remaining \<noteq> [] then chunks @ [remaining] else chunks)"
      by (subst chunkLoop.simps) simp
    then show ?thesis
      by (cases "remaining = []") (auto intro: exI [of _ "[]"] exI [of _ "[remaining]"])
  next
    case True
    have d: "\<forall>c \<in> set (drop limit remaining). \<not> isWhiteSpace c"
      using less.prems by (meson in_set_dropD)
    have "length (drop limit remaining) < length remaining"
      using True assms by simp
    from less.hyps [OF this d, of "chunks @ [take limit remaining]"] obtain ps where ps:
      "chunkLoop limit (drop limit remaining) (chunks @ [take limit remaining])
         = (chunks @ [take limit remaining]) @ ps"
      "concat ps = drop limit remaining" "\<forall>p \<in> set (butlast ps). length p = limit" "[] \<notin> set ps"
      by blast
    have t: "length (take limit remaining) = limit" "take limit remaining \<noteq> []"
      using True assms by auto
    have "chunkLoop limit remaining chunks = chunks @ (take limit remaining # ps)"
      using chunkLoop_plain_step [OF less.prems assms True] ps(1) by simp
    moreover have "concat (take limit remaining # ps) = remaining"
      using ps(2) by simp
    moreover have "\<forall>p \<in> set (butlast (take limit remaining # ps)). length p = limit"
      using ps(3) t(1) by simp
    moreover have "[] \<notin> set (take limit remaining # ps)"
      using ps(4) t(2) by simp
    ultimately show ?thesis by blast
  qed
qed



section \<open>Properties of the backend client\<close>



end
